theory Spec2Isabelle
  imports Complex_Main "HOL-Library.Sublist" "HOL-Library.AList"
begin

section \<open>JavaScript values\<close>

text \<open>
  The adapter is untyped JavaScript: a bound, a state value or a stored metadata field can
  be \<^verbatim>\<open>undefined\<close>, \<^verbatim>\<open>null\<close>, a boolean, a number, a string, an array or a plain object.
  Strings are lists of code units below 256 (Latin-1), objects are association lists in
  property order.

  A finite number \<open>Fin m e\<close> is the decimal \<open>m * 10 ^ e\<close>; it stands for the double nearest to
  that decimal. The range of doubles is modelled (a literal at or beyond the overflow
  threshold is an infinity, one at or below half the smallest subnormal is zero), the
  rounding of the significand to 53 bits and the sign of zero are not.
\<close>

datatype jsnum = NaN | PosInf | NegInf | Fin int int

datatype jsval =
    Undefined
  | Null
  | Bool bool
  | Num jsnum
  | Str string
  | Arr "jsval list"
  | Obj "(string \<times> jsval) list"

type_synonym jsobject = "(string \<times> jsval) list"

definition pow10 :: "int \<Rightarrow> rat" where
  "pow10 e = (if 0 \<le> e then 10 ^ nat e else 1 / 10 ^ nat (- e))"

definition fin_val :: "int \<Rightarrow> int \<Rightarrow> rat" where
  "fin_val m e = of_int m * pow10 e"

text \<open>\<^verbatim>\<open>isNaN\<close> and \<^verbatim>\<open>Number.isFinite\<close> on a number.\<close>

fun isNaN :: "jsnum \<Rightarrow> bool" where
  "isNaN NaN = True"
| "isNaN _ = False"

fun isFinite :: "jsnum \<Rightarrow> bool" where
  "isFinite (Fin m e) = True"
| "isFinite _ = False"

text \<open>The relational operator \<^verbatim>\<open><\<close> on numbers: false whenever an operand is NaN.\<close>

fun js_lt :: "jsnum \<Rightarrow> jsnum \<Rightarrow> bool" where
  "js_lt NaN _ = False"
| "js_lt _ NaN = False"
| "js_lt PosInf _ = False"
| "js_lt _ NegInf = False"
| "js_lt NegInf _ = True"
| "js_lt _ PosInf = True"
| "js_lt (Fin m e) (Fin n f) = (fin_val m e < fin_val n f)"

definition js_gt :: "jsnum \<Rightarrow> jsnum \<Rightarrow> bool" where
  "js_gt a b = js_lt b a"

subsection \<open>Characters and trimming\<close>

definition code :: "char \<Rightarrow> nat" where
  "code c = of_char c"

definition is_digit :: "char \<Rightarrow> bool" where
  "is_digit c = (48 \<le> code c \<and> code c \<le> 57)"

definition digit_val :: "char \<Rightarrow> nat" where
  "digit_val c = code c - 48"

text \<open>White space and line terminators that \<^verbatim>\<open>trim\<close> strips, among the code units below 256.\<close>

definition is_ws :: "char \<Rightarrow> bool" where
  "is_ws c = (code c \<in> {9, 10, 11, 12, 13, 32, 160})"

definition trim :: "string \<Rightarrow> string" where
  "trim s = rev (dropWhile is_ws (rev (dropWhile is_ws s)))"

definition digits_val :: "string \<Rightarrow> nat" where
  "digits_val ds = foldl (\<lambda>a c. 10 * a + digit_val c) 0 ds"

subsection \<open>Number(string)\<close>

text \<open>
  A literal whose magnitude reaches \<open>2^1024 - 2^970\<close> rounds to an infinity; one whose
  magnitude is at most \<open>2^-1075\<close> rounds to zero.
\<close>

definition in_range :: "bool \<Rightarrow> nat \<Rightarrow> int \<Rightarrow> jsnum" where
  "in_range neg m e =
     (let v = fin_val (int m) e in
      if 2 ^ 1024 - 2 ^ 970 \<le> v then (if neg then NegInf else PosInf)
      else if v \<le> 1 / 2 ^ 1075 then Fin 0 0
      else Fin (if neg then - int m else int m) e)"

definition exponent_part :: "string \<Rightarrow> int option" where
  "exponent_part r =
     (case r of
        [] \<Rightarrow> Some 0
      | c # u \<Rightarrow>
          if c = CHR ''e'' \<or> c = CHR ''E'' then
            (let neg = (u \<noteq> [] \<and> hd u = CHR ''-'');
                 ds = (if u \<noteq> [] \<and> (hd u = CHR ''+'' \<or> hd u = CHR ''-'') then tl u else u)
             in if ds \<noteq> [] \<and> list_all is_digit ds
                then Some (if neg then - int (digits_val ds) else int (digits_val ds))
                else None)
          else None)"

definition unsigned_decimal :: "bool \<Rightarrow> string \<Rightarrow> jsnum" where
  "unsigned_decimal neg t =
     (if t = ''Infinity'' then (if neg then NegInf else PosInf)
      else
        let ip = takeWhile is_digit t;
            r1 = dropWhile is_digit t;
            dot = (r1 \<noteq> [] \<and> hd r1 = CHR ''.'');
            fp = (if dot then takeWhile is_digit (tl r1) else []);
            r2 = (if dot then dropWhile is_digit (tl r1) else r1)
        in if ip = [] \<and> fp = [] then NaN
           else case exponent_part r2 of
                  None \<Rightarrow> NaN
                | Some ex \<Rightarrow> in_range neg (digits_val (ip @ fp)) (ex - int (length fp)))"

definition radix_digit :: "char \<Rightarrow> nat option" where
  "radix_digit c =
     (if is_digit c then Some (digit_val c)
      else if 97 \<le> code c \<and> code c \<le> 102 then Some (code c - 87)
      else if 65 \<le> code c \<and> code c \<le> 70 then Some (code c - 55)
      else None)"

definition radix_val :: "nat \<Rightarrow> string \<Rightarrow> nat option" where
  "radix_val b ds =
     (if ds \<noteq> [] \<and> list_all (\<lambda>c. case radix_digit c of None \<Rightarrow> False | Some d \<Rightarrow> d < b) ds
      then Some (foldl (\<lambda>a c. b * a + the (radix_digit c)) 0 ds)
      else None)"

definition non_decimal :: "string \<Rightarrow> nat option" where
  "non_decimal s =
     (case s of
        z # p # ds \<Rightarrow>
          if z \<noteq> CHR ''0'' then None
          else if p = CHR ''x'' \<or> p = CHR ''X'' then radix_val 16 ds
          else if p = CHR ''o'' \<or> p = CHR ''O'' then radix_val 8 ds
          else if p = CHR ''b'' \<or> p = CHR ''B'' then radix_val 2 ds
          else None
      | _ \<Rightarrow> None)"

definition str_to_num :: "string \<Rightarrow> jsnum" where
  "str_to_num s0 =
     (let s = trim s0 in
      if s = [] then Fin 0 0
      else case non_decimal s of
             Some n \<Rightarrow> in_range False n 0
           | None \<Rightarrow>
               if hd s = CHR ''+'' then unsigned_decimal False (tl s)
               else if hd s = CHR ''-'' then unsigned_decimal True (tl s)
               else unsigned_decimal False s)"

subsection \<open>String(number)\<close>

fun nat_digits :: "nat \<Rightarrow> string" where
  "nat_digits n = (if n < 10 then [char_of (48 + n)] else nat_digits (n div 10) @ [char_of (48 + n mod 10)])"

declare nat_digits.simps [simp del]

definition int_str :: "int \<Rightarrow> string" where
  "int_str i = (if i < 0 then CHR ''-'' # nat_digits (nat (- i)) else nat_digits (nat i))"

definition strip_zeros :: "string \<Rightarrow> string" where
  "strip_zeros ds = rev (dropWhile (\<lambda>c. c = CHR ''0'') (rev ds))"

text \<open>
  Number::toString for a positive decimal: \<open>s\<close> are its significant digits, \<open>k\<close> their number
  and \<open>n\<close> the position of the decimal point, so that the value is \<open>0.s * 10 ^ n\<close>.
\<close>

definition pos_str :: "nat \<Rightarrow> int \<Rightarrow> string" where
  "pos_str m e =
     (let ds = nat_digits m;
          s = strip_zeros ds;
          k = int (length s);
          n = int (length ds) + e
      in if k \<le> n \<and> n \<le> 21 then s @ replicate (nat (n - k)) CHR ''0''
         else if 0 < n \<and> n \<le> 21 then take (nat n) s @ ''.'' @ drop (nat n) s
         else if - 6 < n \<and> n \<le> 0 then ''0.'' @ replicate (nat (- n)) CHR ''0'' @ s
         else (if k = 1 then s else take 1 s @ ''.'' @ drop 1 s)
              @ ''e'' @ (if 0 \<le> n - 1 then ''+'' else ''-'') @ nat_digits (nat (abs (n - 1))))"

fun num_str :: "jsnum \<Rightarrow> string" where
  "num_str NaN = ''NaN''"
| "num_str PosInf = ''Infinity''"
| "num_str NegInf = ''-Infinity''"
| "num_str (Fin m e) =
     (if m = 0 then ''0''
      else if m < 0 then CHR ''-'' # pos_str (nat (- m)) e
      else pos_str (nat m) e)"

subsection \<open>String(value), Number(value), typeof, truthiness\<close>

fun join :: "string \<Rightarrow> string list \<Rightarrow> string" where
  "join sep [] = []"
| "join sep [x] = x"
| "join sep (x # y # ys) = x @ sep @ join sep (y # ys)"

fun js_String :: "jsval \<Rightarrow> string" where
  "js_String Undefined = ''undefined''"
| "js_String Null = ''null''"
| "js_String (Bool b) = (if b then ''true'' else ''false'')"
| "js_String (Num x) = num_str x"
| "js_String (Str s) = s"
| "js_String (Arr xs) =
     join '','' (map (\<lambda>x. if x = Undefined \<or> x = Null then [] else js_String x) xs)"
| "js_String (Obj ps) = ''[object Object]''"

fun js_Number :: "jsval \<Rightarrow> jsnum" where
  "js_Number Undefined = NaN"
| "js_Number Null = Fin 0 0"
| "js_Number (Bool b) = (if b then Fin 1 0 else Fin 0 0)"
| "js_Number (Num x) = x"
| "js_Number (Str s) = str_to_num s"
| "js_Number (Arr xs) = str_to_num (js_String (Arr xs))"
| "js_Number (Obj ps) = str_to_num (js_String (Obj ps))"

fun typeof :: "jsval \<Rightarrow> string" where
  "typeof Undefined = ''undefined''"
| "typeof Null = ''object''"
| "typeof (Bool b) = ''boolean''"
| "typeof (Num x) = ''number''"
| "typeof (Str s) = ''string''"
| "typeof (Arr xs) = ''object''"
| "typeof (Obj ps) = ''object''"

fun truthy :: "jsval \<Rightarrow> bool" where
  "truthy Undefined = False"
| "truthy Null = False"
| "truthy (Bool b) = b"
| "truthy (Num NaN) = False"
| "truthy (Num (Fin m e)) = (m \<noteq> 0)"
| "truthy (Num _) = True"
| "truthy (Str s) = (s \<noteq> [])"
| "truthy _ = True"

subsection \<open>Objects\<close>

text \<open>
  Property read (\<^verbatim>\<open>o[k]\<close>, \<^verbatim>\<open>undefined\<close> when absent), \<^verbatim>\<open>hasOwnProperty\<close>, assignment and
  \<^verbatim>\<open>delete\<close>. Assigning a new key that is not an array index appends it.
\<close>

definition get_prop :: "jsobject \<Rightarrow> string \<Rightarrow> jsval" where
  "get_prop ob k = (case map_of ob k of None \<Rightarrow> Undefined | Some v \<Rightarrow> v)"

definition hasOwnProperty :: "jsobject \<Rightarrow> string \<Rightarrow> bool" where
  "hasOwnProperty ob k = (map_of ob k \<noteq> None)"

definition assign :: "string \<Rightarrow> jsval \<Rightarrow> jsobject \<Rightarrow> jsobject" where
  "assign k v ob = AList.update k v ob"

definition delete_prop :: "string \<Rightarrow> jsobject \<Rightarrow> jsobject" where
  "delete_prop k ob = AList.delete k ob"

text \<open>
  An array index is a canonical decimal numeral below \<open>2^32 - 1\<close>. A new property with such a
  key is ordered before every other key and by value among the indices.
\<close>

definition is_array_index :: "string \<Rightarrow> bool" where
  "is_array_index k =
     (k \<noteq> [] \<and> list_all is_digit k \<and> (k = ''0'' \<or> hd k \<noteq> CHR ''0'') \<and>
      digits_val k < 2 ^ 32 - 1)"

fun insert_index :: "string \<Rightarrow> jsval \<Rightarrow> jsobject \<Rightarrow> jsobject" where
  "insert_index k v [] = [(k, v)]"
| "insert_index k v ((k', v') # ps) =
     (if is_array_index k' \<and> digits_val k' < digits_val k
      then (k', v') # insert_index k v ps
      else (k, v) # (k', v') # ps)"

definition assign_any :: "string \<Rightarrow> jsval \<Rightarrow> jsobject \<Rightarrow> jsobject" where
  "assign_any k v ob =
     (if hasOwnProperty ob k \<or> \<not> is_array_index k then AList.update k v ob
      else insert_index k v ob)"

section \<open>Regular expressions\<close>

text \<open>
  The patterns the adapter tests strings against, anchored at the start of the input.
  \<open>ms r s\<close> lists the remainders of \<open>s\<close> after every way of matching \<open>r\<close> at its start; a
  backtracking matcher finds a match exactly when there is one. \<open>Dot\<close> excludes the line
  terminators, \<open>Eos\<close> is \<^verbatim>\<open>$\<close> without the multiline flag, \<open>Rep m n\<close> is \<^verbatim>\<open>{m,n}\<close>.
\<close>

datatype rx =
    Lit string
  | Cls "(char \<times> char) list"
  | Dot
  | Seq rx rx
  | Alt rx rx
  | Opt rx
  | Star rx
  | Plus rx
  | Rep nat nat rx
  | Ahead rx
  | NotAhead rx
  | Eos

definition in_cls :: "(char \<times> char) list \<Rightarrow> char \<Rightarrow> bool" where
  "in_cls rs c = list_ex (\<lambda>(lo, hi). code lo \<le> code c \<and> code c \<le> code hi) rs"

fun rep_exact :: "(string \<Rightarrow> string list) \<Rightarrow> nat \<Rightarrow> string list \<Rightarrow> string list" where
  "rep_exact f 0 cur = cur"
| "rep_exact f (Suc m) cur = rep_exact f m (remdups (concat (map f cur)))"

fun rep_upto :: "(string \<Rightarrow> string list) \<Rightarrow> nat \<Rightarrow> string list \<Rightarrow> string list" where
  "rep_upto f 0 cur = cur"
| "rep_upto f (Suc n) cur =
     (if cur = [] then [] else cur @ rep_upto f n (remdups (concat (map f cur))))"

primrec ms :: "rx \<Rightarrow> string \<Rightarrow> string list" where
  "ms (Lit l) = (\<lambda>s. if prefix l s then [drop (length l) s] else [])"
| "ms (Cls rs) = (\<lambda>s. case s of [] \<Rightarrow> [] | c # t \<Rightarrow> if in_cls rs c then [t] else [])"
| "ms Dot = (\<lambda>s. case s of [] \<Rightarrow> [] | c # t \<Rightarrow> if code c = 10 \<or> code c = 13 then [] else [t])"
| "ms (Seq a b) = (\<lambda>s. remdups (concat (map (ms b) (ms a s))))"
| "ms (Alt a b) = (\<lambda>s. ms a s @ ms b s)"
| "ms (Opt a) = (\<lambda>s. ms a s @ [s])"
| "ms (Star a) = (\<lambda>s. rep_upto (ms a) (length s) [s])"
| "ms (Plus a) = (\<lambda>s. rep_upto (ms a) (length s) (remdups (ms a s)))"
| "ms (Rep m n a) = (\<lambda>s. rep_upto (ms a) (n - m) (rep_exact (ms a) m [s]))"
| "ms (Ahead a) = (\<lambda>s. if ms a s \<noteq> [] then [s] else [])"
| "ms (NotAhead a) = (\<lambda>s. if ms a s = [] then [s] else [])"
| "ms Eos = (\<lambda>s. if s = [] then [s] else [])"

definition rx_test :: "rx \<Rightarrow> string \<Rightarrow> bool" where
  "rx_test r s = (ms r s \<noteq> [])"

definition digit_cls :: rx where
  "digit_cls = Cls [(CHR ''0'', CHR ''9'')]"

section \<open>The object store and the adapter calls\<close>

datatype loglevel = LError | LWarn | LInfo | LDebug | LSilly

record iobject =
  otype :: string
  common :: "jsobject option"
  native :: jsobject

datatype call =
    GetObject string
  | SetObjectNotExists string iobject
  | ExtendObject string jsobject
  | SetObject string iobject
  | DelObject string
  | SetState string jsval bool "jsval option"

text \<open>
  The adapter's view of the host: the persisted objects, the last state written under each
  id, the calls made so far in order, the log, and the ids on which the store answers
  \<^verbatim>\<open>getObject\<close> or \<^verbatim>\<open>extendObject\<close> with an error.
\<close>

record world =
  objects :: "string \<rightharpoonup> iobject"
  states :: "string \<rightharpoonup> jsval \<times> bool \<times> jsval option"
  calls :: "call list"
  logged :: "(loglevel \<times> string) list"
  read_error :: "string \<rightharpoonup> string"
  write_error :: "string \<rightharpoonup> string"

definition adapter_log :: "loglevel \<Rightarrow> string \<Rightarrow> world \<Rightarrow> world" where
  "adapter_log lv msg w = w\<lparr>logged := logged w @ [(lv, msg)]\<rparr>"

definition setState :: "string \<Rightarrow> jsval \<Rightarrow> bool \<Rightarrow> jsval option \<Rightarrow> world \<Rightarrow> world" where
  "setState ident v ack expire w =
     w\<lparr>states := (states w)(ident \<mapsto> (v, ack, expire)),
       calls := calls w @ [SetState ident v ack expire]\<rparr>"

definition getObject :: "string \<Rightarrow> world \<Rightarrow> (string + iobject option) \<times> world" where
  "getObject ident w =
     ((case read_error w ident of Some err \<Rightarrow> Inl err | None \<Rightarrow> Inr (objects w ident)),
      w\<lparr>calls := calls w @ [GetObject ident]\<rparr>)"

definition setObjectNotExists :: "string \<Rightarrow> iobject \<Rightarrow> world \<Rightarrow> world" where
  "setObjectNotExists ident ob w =
     w\<lparr>objects := (if objects w ident = None then (objects w)(ident \<mapsto> ob) else objects w),
       calls := calls w @ [SetObjectNotExists ident ob]\<rparr>"

text \<open>
  Modelled from the spec: the store's \<^verbatim>\<open>extendObject\<close> (the spec's
  \<^verbatim>\<open>patchMetadata(path, partialShape)\<close>) is not part of the adapter's sources. The spec has the
  reconciler patch only the metadata, never destroy or recreate the entity, and hands the
  store a partial shape: a key that the supplied \<^verbatim>\<open>common\<close> carries takes the supplied value, a
  key that it leaves out keeps the value the store holds. The other parts of the object are
  left alone. It answers with the error, if the store has one for the id.
\<close>

definition patch_common :: "jsobject \<Rightarrow> jsobject \<Rightarrow> jsobject" where
  "patch_common stored c =
     foldl (\<lambda>acc k. case map_of c k of Some v \<Rightarrow> assign k v acc | None \<Rightarrow> acc)
       stored (remdups (map fst c))"

definition extendObject :: "string \<Rightarrow> jsobject \<Rightarrow> world \<Rightarrow> string option \<times> world" where
  "extendObject ident c w =
     (case write_error w ident of
        Some err \<Rightarrow> (Some err, w\<lparr>calls := calls w @ [ExtendObject ident c]\<rparr>)
      | None \<Rightarrow>
          (None,
           w\<lparr>objects :=
                (case objects w ident of
                   None \<Rightarrow> objects w
                 | Some ob \<Rightarrow>
                     (objects w)(ident \<mapsto>
                        ob\<lparr>common :=
                             Some (patch_common (case common ob of None \<Rightarrow> [] | Some s \<Rightarrow> s) c)\<rparr>)),
             calls := calls w @ [ExtendObject ident c]\<rparr>))"

section \<open>safeSetState\<close>

text \<open>\<^verbatim>\<open>id.split('.').pop()\<close>: the part of the id after its last dot.\<close>

definition last_segment :: "string \<Rightarrow> string" where
  "last_segment ident = rev (takeWhile (\<lambda>c. c \<noteq> CHR ''.'') (rev ident))"

text \<open>The pattern \<^verbatim>\<open>/^val(\d+)$/\<close>.\<close>

definition valNN :: rx where
  "valNN = Seq (Lit ''val'') (Seq (Plus digit_cls) Eos)"

definition is_valNN :: "string \<Rightarrow> bool" where
  "is_valNN ident = (let last = last_segment ident in last \<noteq> [] \<and> rx_test valNN last)"

definition clamp_msg :: "string \<Rightarrow> jsval \<Rightarrow> jsval \<Rightarrow> loglevel \<times> string" where
  "clamp_msg ident finalVal mn =
     (LDebug, ''safeSetState: clamping '' @ ident @ '' value '' @ js_String finalVal @
              '' -> min '' @ num_str (js_Number mn) @ '' to avoid warning'')"

text \<open>
  The two checks made on the fetched object, in the order of the source: the first replaces
  a value below \<^verbatim>\<open>min\<close> by \<^verbatim>\<open>Number(min)\<close>, the second replaces a value above \<^verbatim>\<open>max\<close> by
  \<^verbatim>\<open>Number(min)\<close> as well.
\<close>

definition below_min :: "jsval \<Rightarrow> jsval \<Rightarrow> bool" where
  "below_min mn finalVal =
     (typeof mn \<noteq> ''undefined'' \<and> \<not> isNaN (js_Number mn) \<and> \<not> isNaN (js_Number finalVal) \<and>
      js_lt (js_Number finalVal) (js_Number mn))"

definition above_max :: "jsval \<Rightarrow> jsval \<Rightarrow> bool" where
  "above_max mx finalVal =
     (typeof mx \<noteq> ''undefined'' \<and> \<not> isNaN (js_Number mx) \<and> \<not> isNaN (js_Number finalVal) \<and>
      js_gt (js_Number finalVal) (js_Number mx))"

definition clamp :: "string \<Rightarrow> jsobject \<Rightarrow> jsval \<Rightarrow> jsval \<times> (loglevel \<times> string) list" where
  "clamp ident c val =
     (let mn = get_prop c ''min'';
          mx = get_prop c ''max'';
          (v1, l1) = (if below_min mn val then (Num (js_Number mn), [clamp_msg ident val mn])
                      else (val, []));
          (v2, l2) = (if above_max mx v1 then (Num (js_Number mn), l1 @ [clamp_msg ident v1 mn])
                      else (v1, l1))
      in (v2, l2))"

text \<open>
  The wrapper itself. An id that is not a \<^verbatim>\<open>val\<close> id is written at once; any other id is
  looked up first, and the value is clamped when the object is there and has a common. The
  expiry is \<open>None\<close> when the argument is left out. (\<^verbatim>\<open>adapter.setState\<close> is taken not to throw;
  the source only logs if it does.)
\<close>

definition safeSetState :: "string \<Rightarrow> jsval \<Rightarrow> bool \<Rightarrow> jsval option \<Rightarrow> world \<Rightarrow> world" where
  "safeSetState ident val ack expire w =
     (if \<not> is_valNN ident then setState ident val ack expire w
      else
        case getObject ident w of
          (Inr (Some ob), w1) \<Rightarrow>
            (case common ob of
               Some c \<Rightarrow>
                 (let (finalVal, msgs) = clamp ident c val
                  in setState ident finalVal ack expire (w1\<lparr>logged := logged w1 @ msgs\<rparr>))
             | None \<Rightarrow> setState ident val ack expire w1)
        | (_, w1) \<Rightarrow> setState ident val ack expire w1)"

section \<open>createISGCommands\<close>

subsection \<open>Label clean-up\<close>

text \<open>Replace every maximal run of one character, as \<^verbatim>\<open>replace(/[c]+/g, rep)\<close> does.\<close>

function replace_runs :: "char \<Rightarrow> string \<Rightarrow> string \<Rightarrow> string" where
  "replace_runs c rep [] = []"
| "replace_runs c rep (x # xs) =
     (if x = c then rep @ replace_runs c rep (dropWhile (\<lambda>y. y = c) xs)
      else x # replace_runs c rep xs)"
  by pat_completeness auto
termination
  by (relation "measure (\<lambda>(c, rep, s). length s)")
     (auto simp: le_imp_less_Suc length_dropWhile_le)

definition Umlauts :: "string \<Rightarrow> string" where
  "Umlauts text_string =
     replace_runs (CHR 0xDC) ''UE''
       (replace_runs (CHR 0xD6) ''OE'' (replace_runs (CHR 0xC4) ''AE'' text_string))"

text \<open>\<^verbatim>\<open>replace(/ +0+/g, '')\<close>: drop every run of spaces that is followed by a run of zeros.\<close>

function strip_space_zeros :: "string \<Rightarrow> string" where
  "strip_space_zeros [] = []"
| "strip_space_zeros (x # xs) =
     (if x = CHR '' '' then
        (let sp = takeWhile (\<lambda>y. y = CHR '' '') xs;
             r = dropWhile (\<lambda>y. y = CHR '' '') xs
         in if r \<noteq> [] \<and> hd r = CHR ''0''
            then strip_space_zeros (dropWhile (\<lambda>y. y = CHR ''0'') r)
            else x # sp @ strip_space_zeros r)
      else x # strip_space_zeros xs)"
  by pat_completeness auto
termination
  by (relation "measure length")
     (auto simp: less_Suc_eq_le
           intro!: order_trans [OF length_dropWhile_le length_dropWhile_le] length_dropWhile_le)

subsection \<open>The desired metadata\<close>

record command =
  strGroup :: string
  valTag :: "string option"
  valTagLang :: jsval
  valType :: jsval
  valUnit :: "string option"
  valRole :: jsval
  valValue :: jsval
  valStates :: jsval
  valMin :: jsval
  valMax :: jsval

text \<open>
  What the adapter takes from outside: the \<^verbatim>\<open>isgUmlauts\<close> setting, and \<^verbatim>\<open>JSON.parse\<close> (no
  result when it throws) and \<^verbatim>\<open>JSON.stringify\<close> of the JavaScript runtime.
\<close>

record env =
  isgUmlauts :: string
  jsonParse :: "string \<Rightarrow> jsval option"
  jsonStringify :: "jsval \<Rightarrow> string"

definition dq :: string where
  "dq = [CHR 0x22]"

text \<open>
  The tag and the group after the clean-up, and the id built from them. The source has
  returned before this point when the tag is null.
\<close>

definition tag_of :: "env \<Rightarrow> command \<Rightarrow> string" where
  "tag_of ev cmd =
     (case valTag cmd of
        None \<Rightarrow> []
      | Some tag \<Rightarrow> replace_runs (CHR ''*'') ''_'' (if isgUmlauts ev = ''no'' then Umlauts tag else tag))"

definition group_of :: "env \<Rightarrow> command \<Rightarrow> string" where
  "group_of ev cmd = (if isgUmlauts ev = ''no'' then Umlauts (strGroup cmd) else strGroup cmd)"

definition id_of :: "env \<Rightarrow> command \<Rightarrow> string" where
  "id_of ev cmd = group_of ev cmd @ ''.'' @ tag_of ev cmd"

definition unit_of :: "command \<Rightarrow> string" where
  "unit_of cmd = strip_space_zeros (case valUnit cmd of None \<Rightarrow> [] | Some u \<Rightarrow> u)"

definition baseCommon :: "command \<Rightarrow> jsobject" where
  "baseCommon cmd =
     [(''name'', valTagLang cmd), (''type'', valType cmd), (''read'', Bool True),
      (''write'', Bool True), (''unit'', Str (unit_of cmd)), (''role'', valRole cmd)]"

text \<open>
  One bound: \<open>key\<close> is \<^verbatim>\<open>min\<close> or \<^verbatim>\<open>max\<close>, \<open>v\<close> the value supplied for it. The key is set only
  when the value is neither undefined nor null and its trimmed string form is not empty and
  converts to a finite number; the other branches only log.
\<close>

definition addBound ::
  "string \<Rightarrow> string \<Rightarrow> jsval \<Rightarrow> jsobject \<times> (loglevel \<times> string) list
     \<Rightarrow> jsobject \<times> (loglevel \<times> string) list" where
  "addBound key ident v st =
     (case st of (c, l) \<Rightarrow>
        if typeof v \<noteq> ''undefined'' \<and> v \<noteq> Null then
          (let s = trim (js_String v) in
           if s \<noteq> [] then
             (let n = str_to_num s in
              if isFinite n then (assign key (Num n) c, l)
              else (c, l @ [(LDebug, ''createISGCommands: invalid '' @ key @ '' '' @ dq @
                                     js_String v @ dq @ '' for '' @ ident @ '' - ignored'')]))
           else (c, l @ [(LDebug, ''createISGCommands: empty '' @ key @ '' for '' @ ident @
                                  '' - ignored'')]))
        else (c, l))"

text \<open>
  The spec's rule for a bound, in its own words: the bound is the number that the source
  value, converted to a string and trimmed, parses to, provided the trimmed string is not
  empty and the number is finite; there is no bound otherwise.
\<close>

definition spec_bound :: "jsval \<Rightarrow> jsnum option" where
  "spec_bound v =
     (let s = trim (js_String v)
      in if s \<noteq> [] \<and> isFinite (str_to_num s) then Some (str_to_num s) else None)"

text \<open>\<^verbatim>\<open>s.split(c)\<close> on a single character.\<close>

fun split_on :: "char \<Rightarrow> string \<Rightarrow> string list" where
  "split_on c [] = [[]]"
| "split_on c (x # xs) =
     (if x = c then [] # split_on c xs
      else case split_on c xs of [] \<Rightarrow> [[x]] | y # ys \<Rightarrow> (x # y) # ys)"

text \<open>
  The \<^verbatim>\<open>"0:Off,1:On"\<close> shape of a states string. The object that collects the pairs is a
  plain \<^verbatim>\<open>{}\<close>: an assignment to its key \<^verbatim>\<open>__proto__\<close> reaches the inherited setter, which
  ignores a string, so that pair leaves no property.
\<close>

definition add_pair :: "jsobject \<Rightarrow> string \<Rightarrow> jsobject" where
  "add_pair ob pair =
     (let parts = split_on (CHR '':'') pair in
      if 2 \<le> length parts then
        (let k = trim (hd parts); v = trim (join '':'' (tl parts))
         in if k \<noteq> [] \<and> k \<noteq> ''__proto__'' then assign_any k (Str v) ob else ob)
      else ob)"

definition pairs_states :: "string \<Rightarrow> jsobject" where
  "pairs_states s = foldl add_pair [] (split_on (CHR '','') s)"

definition addStates ::
  "env \<Rightarrow> string \<Rightarrow> jsval \<Rightarrow> jsobject \<times> (loglevel \<times> string) list
     \<Rightarrow> jsobject \<times> (loglevel \<times> string) list" where
  "addStates ev tag vs st =
     (case st of (c, l) \<Rightarrow>
        if truthy vs then
          (if typeof vs = ''object'' then (assign ''states'' vs c, l)
           else case vs of
             Str str \<Rightarrow>
               (let s = trim str in
                if prefix ''{'' s \<or> prefix ''['' s then
                  (case jsonParse ev s of
                     Some v \<Rightarrow> (assign ''states'' v c, l)
                   | None \<Rightarrow>
                       (case jsonParse ev (map (\<lambda>ch. if ch = CHR 0x27 then CHR 0x22 else ch) s) of
                          Some v \<Rightarrow> (assign ''states'' v c, l)
                        | None \<Rightarrow>
                            (c, l @ [(LWarn, ''createISGCommands: could not parse states for '' @
                                             tag @ ''. states will be ignored.'')])))
                else
                  (let ob = pairs_states s
                   in if ob \<noteq> [] then (assign ''states'' (Obj ob) c, l) else (c, l)))
           | _ \<Rightarrow> (c, l))
        else (c, l))"

definition build :: "env \<Rightarrow> command \<Rightarrow> jsobject \<times> (loglevel \<times> string) list" where
  "build ev cmd =
     addStates ev (tag_of ev cmd) (valStates cmd)
       (addBound ''max'' (id_of ev cmd) (valMax cmd)
          (addBound ''min'' (id_of ev cmd) (valMin cmd)
             (baseCommon cmd,
              [(LDebug, ''createISGCommands: encountered valMin='' @ dq @ js_String (valMin cmd) @
                        dq @ '' valMax='' @ dq @ js_String (valMax cmd) @ dq @ '' for '' @
                        id_of ev cmd)])))"

definition desiredCommon :: "env \<Rightarrow> command \<Rightarrow> jsobject" where
  "desiredCommon ev cmd = fst (build ev cmd)"

subsection \<open>Reconciling with the persisted object\<close>

text \<open>
  The block the source writes once for \<^verbatim>\<open>min\<close> and once more for \<^verbatim>\<open>max\<close>: take the bound from
  the desired metadata when it has one, otherwise remove a bound that is present.
\<close>

definition replaceBound :: "string \<Rightarrow> jsobject \<Rightarrow> jsobject \<Rightarrow> jsobject" where
  "replaceBound key desired nc =
     (if hasOwnProperty desired key then assign key (get_prop desired key) nc
      else if hasOwnProperty nc key then delete_prop key nc
      else nc)"

text \<open>The states are taken from the desired metadata when it has them and kept otherwise.\<close>

definition replaceStates :: "jsobject \<Rightarrow> jsobject \<Rightarrow> jsobject" where
  "replaceStates desired nc =
     (if hasOwnProperty desired ''states'' then assign ''states'' (get_prop desired ''states'') nc
      else nc)"

definition newCommon :: "jsobject \<Rightarrow> jsobject \<Rightarrow> jsobject" where
  "newCommon existingCommon desired =
     replaceStates desired
       (replaceBound ''max'' desired
         (replaceBound ''min'' desired
           (assign ''role'' (get_prop desired ''role'')
             (assign ''unit'' (get_prop desired ''unit'')
               (assign ''write'' (get_prop desired ''write'')
                 (assign ''read'' (get_prop desired ''read'')
                   (assign ''type'' (get_prop desired ''type'')
                     (assign ''name'' (get_prop desired ''name'') existingCommon))))))))"

definition keysToCheck :: "string list" where
  "keysToCheck =
     [''name'', ''type'', ''read'', ''write'', ''unit'', ''role'', ''min'', ''max'', ''states'']"

definition same :: "env \<Rightarrow> jsval \<Rightarrow> jsval \<Rightarrow> bool" where
  "same ev a b =
     (if typeof a = ''object'' \<and> typeof b = ''object''
      then jsonStringify ev a = jsonStringify ev b
      else js_String a = js_String b)"

definition needUpdate :: "env \<Rightarrow> jsobject \<Rightarrow> jsobject \<Rightarrow> bool" where
  "needUpdate ev existingCommon nc =
     list_ex (\<lambda>k. \<not> same ev (get_prop existingCommon k) (get_prop nc k)) keysToCheck"

text \<open>\<^verbatim>\<open>obj.common || {}\<close>\<close>

definition existing_of :: "iobject \<Rightarrow> jsobject" where
  "existing_of ob = (case common ob of None \<Rightarrow> [] | Some c \<Rightarrow> c)"

text \<open>
  The call and its \<^verbatim>\<open>getObject\<close> callback, run to the end: nothing for a null tag; an error from
  the store is logged and ends the call; a missing object is created with the desired
  metadata; an existing one is patched through \<^verbatim>\<open>extendObject\<close> when a checked field differs;
  in all three cases the value is then written through \<open>safeSetState\<close>.
\<close>

definition createISGCommands :: "env \<Rightarrow> command \<Rightarrow> world \<Rightarrow> world" where
  "createISGCommands ev cmd w =
     (if valTag cmd = None then w
      else
        let ident = id_of ev cmd;
            desired = desiredCommon ev cmd;
            w0 = w\<lparr>logged := logged w @ snd (build ev cmd)\<rparr>
        in case getObject ident w0 of
             (Inl err, w1) \<Rightarrow>
               adapter_log LError (''createISGCommands: getObject error for '' @ ident @ '': '' @ err) w1
           | (Inr None, w1) \<Rightarrow>
               safeSetState ident (valValue cmd) True None
                 (setObjectNotExists ident
                    \<lparr>otype = ''state'', common = Some desired, native = []\<rparr> w1)
           | (Inr (Some ob), w1) \<Rightarrow>
               (let existingCommon = existing_of ob;
                    nc = newCommon existingCommon desired
                in if needUpdate ev existingCommon nc then
                     (case extendObject ident nc w1 of
                        (Some err2, w2) \<Rightarrow>
                          safeSetState ident (valValue cmd) True None
                            (adapter_log LError (''createISGCommands: extendObject failed for '' @ ident @
                                         '': '' @ err2) w2)
                      | (None, w2) \<Rightarrow> safeSetState ident (valValue cmd) True None w2)
                   else safeSetState ident (valValue cmd) True None w1))"

section \<open>Values Extractor: role classification (getIsgValues)\<close>

text \<open>
  \<^verbatim>\<open>key.search('TEMP')\<close> turns its string argument into a regular expression and returns
  the index of the first match, or -1. None of the patterns used by \<^verbatim>\<open>getIsgValues\<close>
  contains a regular-expression metacharacter, so the match is a plain substring search.
\<close>

fun search_from :: "string \<Rightarrow> string \<Rightarrow> int \<Rightarrow> int" where
  "search_from pat [] i = (if pat = [] then i else - 1)"
| "search_from pat (c # cs) i =
     (if prefix pat (c # cs) then i else search_from pat cs (i + 1))"

definition search :: "string \<Rightarrow> string \<Rightarrow> int" where
  "search s pat = search_from pat s 0"

definition valueRole :: "string \<Rightarrow> string" where
  "valueRole key =
     (if search key ''TEMP'' > - 1 \<or> search key ''FROST'' > - 1 \<or>
         search key ''SOLLWERT_HK'' = 0 \<or> search key ''ISTWERT_HK'' = 0
      then ''value.temperature''
      else if search key ''DRUCK'' > - 1 then ''value.pressure''
      else if search key ''P_'' = 0 then ''value.power.consumption''
      else if search key ''FEUCHTE'' > - 1 then ''value.humidity''
      else ''value'')"

section \<open>Fetch Gate (schedule, runQueue)\<close>

text \<open>
  The queue, the counter and the limit of the source. The limit is a number and need not
  be whole; the loop of \<^verbatim>\<open>runQueue\<close> compares the counter with it by \<^verbatim>\<open><\<close>. Three fields
  record what the source does not keep: the tasks in the order \<^verbatim>\<open>runQueue\<close> started them,
  the tasks started and not yet settled, the outcome passed on to each submitter; and one
  counts the \<^verbatim>\<open>runQueue\<close> calls that \<^verbatim>\<open>setImmediate\<close> has scheduled and not yet run.
\<close>

record 'a gate =
  queue :: "'a list"
  running :: int
  maxConcurrentFetches :: jsnum
  started :: "'a list"
  active :: "'a list"
  settled :: "('a \<times> bool) list"
  immediates :: nat

function runQueue :: "'a gate \<Rightarrow> 'a gate" where
  "runQueue g =
     (case queue g of
        [] \<Rightarrow> g
      | item # rest \<Rightarrow>
          if js_lt (Fin (running g) 0) (maxConcurrentFetches g)
          then runQueue (g\<lparr>queue := rest, running := running g + 1,
                           started := started g @ [item], active := active g @ [item]\<rparr>)
          else g)"
  by pat_completeness auto
termination
  by (relation "measure (\<lambda>g. length (queue g))") auto

declare runQueue.simps [simp del]

definition schedule :: "'a \<Rightarrow> 'a gate \<Rightarrow> 'a gate" where
  "schedule fn g = runQueue (g\<lparr>queue := queue g @ [fn]\<rparr>)"

text \<open>
  The \<^verbatim>\<open>finally\<close> handler of a started task, the same after \<^verbatim>\<open>resolve\<close> (\<open>ok\<close>) and after
  \<^verbatim>\<open>reject\<close>: the counter goes down and a \<^verbatim>\<open>runQueue\<close> call is handed to \<^verbatim>\<open>setImmediate\<close>.
\<close>

definition settle :: "'a \<Rightarrow> bool \<Rightarrow> 'a gate \<Rightarrow> 'a gate" where
  "settle item ok g =
     g\<lparr>settled := settled g @ [(item, ok)], active := remove1 item (active g),
       running := running g - 1, immediates := immediates g + 1\<rparr>"

definition immediate :: "'a gate \<Rightarrow> 'a gate" where
  "immediate g = runQueue (g\<lparr>immediates := immediates g - 1\<rparr>)"

datatype 'a gate_event = Submit 'a | Settle 'a bool | Immediate

text \<open>Only a started task can settle, and only a scheduled call can run.\<close>

fun gate_step :: "'a gate \<Rightarrow> 'a gate_event \<Rightarrow> 'a gate" where
  "gate_step g (Submit fn) = schedule fn g"
| "gate_step g (Settle item ok) = (if item \<in> set (active g) then settle item ok g else g)"
| "gate_step g Immediate = (if 0 < immediates g then immediate g else g)"

definition gate_run :: "'a gate \<Rightarrow> 'a gate_event list \<Rightarrow> 'a gate" where
  "gate_run g evs = foldl gate_step g evs"

text \<open>
  The limit as \<^verbatim>\<open>ready\<close> installs it from the setting \<^verbatim>\<open>adapter.config.maxConcurrentFetches\<close>:
  \<^verbatim>\<open>Number(setting)\<close> when that is not NaN and above zero, 3 otherwise. Nothing rounds it.
\<close>

definition configured_limit :: "jsval \<Rightarrow> jsnum" where
  "configured_limit setting =
     (let cfgVal = js_Number setting
      in if \<not> isNaN cfgVal \<and> js_gt cfgVal (Fin 0 0) then cfgVal else Fin 3 0)"

definition gate_init :: "jsval \<Rightarrow> 'a gate" where
  "gate_init setting =
     \<lparr>queue = [], running = 0, maxConcurrentFetches = configured_limit setting,
      started = [], active = [], settled = [], immediates = 0\<rparr>"

fun submitted :: "'a gate_event list \<Rightarrow> 'a list" where
  "submitted [] = []"
| "submitted (Submit fn # evs) = fn # submitted evs"
| "submitted (_ # evs) = submitted evs"

text \<open>
  What holds of the gate at every moment: the task started last found the counter below the
  limit, and the counter counts the tasks in flight.
\<close>

definition gate_inv :: "'a gate \<Rightarrow> bool" where
  "gate_inv g =
     (js_lt (Fin (running g - 1) 0) (maxConcurrentFetches g) \<and>
      running g = int (length (active g)))"

section \<open>Command Batcher (setIsgCommands)\<close>

text \<open>
  A flush is the timer callback of \<^verbatim>\<open>setIsgCommands\<close>. It posts the payload that was built
  when the timer was armed, waits for the answer, and empties \<^verbatim>\<open>commands\<close> after the
  \<^verbatim>\<open>try\<close>/\<^verbatim>\<open>catch\<close>. The answer is a response with its status and status text, or a
  rejection with the name and the message of the error (a transport failure, or the abort
  that the timeout raises).
\<close>

type_synonym batch = "(string \<times> jsval) list"

datatype post_outcome =
    Response int string
  | Rejected string string

record batcher =
  commands :: batch
  CommandTimeout :: "batch option"
  posting :: "batch list"
  posted :: "batch list"
  readback :: "string list"
  batch_log :: "(loglevel \<times> string) list"

definition setIsgCommands :: "string \<Rightarrow> jsval \<Rightarrow> batcher \<Rightarrow> batcher" where
  "setIsgCommands strKey strValue b =
     (let cs = commands b @ [(strKey, strValue)]
      in b\<lparr>commands := cs, CommandTimeout := Some cs\<rparr>)"

text \<open>
  The timer fires: the callback runs up to its \<^verbatim>\<open>await\<close>. \<open>fetch_ok\<close> is false when
  \<^verbatim>\<open>getFetch\<close> throws; the callback then ends before its \<^verbatim>\<open>try\<close> and posts nothing.
\<close>

definition timer_fires :: "bool \<Rightarrow> batcher \<Rightarrow> batcher" where
  "timer_fires fetch_ok b =
     (case CommandTimeout b of
        None \<Rightarrow> b
      | Some payload \<Rightarrow>
          if fetch_ok
          then b\<lparr>CommandTimeout := None, posting := posting b @ [payload],
                 posted := posted b @ [payload]\<rparr>
          else b\<lparr>CommandTimeout := None\<rparr>)"

text \<open>\<^verbatim>\<open>toLowerCase\<close> on the code units below 256.\<close>

definition lower :: "string \<Rightarrow> string" where
  "lower s =
     map (\<lambda>c. if (65 \<le> code c \<and> code c \<le> 90) \<or> (192 \<le> code c \<and> code c \<le> 222 \<and> code c \<noteq> 215)
              then char_of (code c + 32) else c) s"

text \<open>
  An error object with its name and message: \<^verbatim>\<open>String(error)\<close>, the test for an abort, and
  \<^verbatim>\<open>error.message || error\<close> as it is logged.
\<close>

definition error_string :: "string \<Rightarrow> string \<Rightarrow> string" where
  "error_string name msg =
     (if name = [] then msg else if msg = [] then name else name @ '': '' @ msg)"

definition is_abort :: "string \<Rightarrow> string \<Rightarrow> bool" where
  "is_abort name msg =
     (name = ''AbortError'' \<or> sublist ''aborted'' (lower (error_string name msg)))"

definition error_text :: "string \<Rightarrow> string \<Rightarrow> string" where
  "error_text name msg = (if msg \<noteq> [] then msg else error_string name msg)"

text \<open>The rest of the callback, once the POST of \<open>payload\<close> has its answer.\<close>

definition post_returns :: "string list \<Rightarrow> batch \<Rightarrow> post_outcome \<Rightarrow> batcher \<Rightarrow> batcher" where
  "post_returns commandPaths payload outcome b =
     (let b1 = b\<lparr>posting := remove1 payload (posting b)\<rparr>;
          b2 = (case outcome of
                  Response status statusText \<Rightarrow>
                    if status = 200 then b1\<lparr>readback := readback b1 @ commandPaths\<rparr>
                    else b1\<lparr>batch_log := batch_log b1 @
                              [(LError, ''statusCode: '' @ int_str status),
                               (LError, ''statusText: '' @ statusText)]\<rparr>
                | Rejected name msg \<Rightarrow>
                    if is_abort name msg
                    then b1\<lparr>batch_log := batch_log b1 @
                              [(LDebug, ''setIsgCommands aborted: '' @ error_text name msg)]\<rparr>
                    else b1\<lparr>batch_log := batch_log b1 @
                              [(LError, ''Error: '' @ error_text name msg)]\<rparr>)
      in b2\<lparr>commands := []\<rparr>)"

datatype batch_event =
    Enqueue string jsval
  | TimerFires bool
  | PostReturns batch post_outcome

fun batch_step :: "string list \<Rightarrow> batcher \<Rightarrow> batch_event \<Rightarrow> batcher" where
  "batch_step ps b (Enqueue k v) = setIsgCommands k v b"
| "batch_step ps b (TimerFires fetch_ok) = timer_fires fetch_ok b"
| "batch_step ps b (PostReturns payload outcome) =
     (if payload \<in> set (posting b) then post_returns ps payload outcome b else b)"

definition batch_run :: "string list \<Rightarrow> batcher \<Rightarrow> batch_event list \<Rightarrow> batcher" where
  "batch_run ps b evs = foldl (batch_step ps) b evs"

definition batch_init :: batcher where
  "batch_init =
     \<lparr>commands = [], CommandTimeout = None, posting = [], posted = [], readback = [],
      batch_log = []\<rparr>"

definition enqueues :: "batch_event list \<Rightarrow> nat" where
  "enqueues evs = length (filter (\<lambda>e. case e of Enqueue k v \<Rightarrow> True | _ \<Rightarrow> False) evs)"

text \<open>One when the debounce timer is armed, zero otherwise.\<close>

definition armed :: "batcher \<Rightarrow> nat" where
  "armed b = (case CommandTimeout b of None \<Rightarrow> 0 | Some p \<Rightarrow> 1)"

section \<open>Startup (ready, main)\<close>

text \<open>The two address patterns of \<^verbatim>\<open>main\<close> and the scheme test on the host.\<close>

definition octet :: rx where
  "octet =
     Alt (Seq (Lit ''25'') (Cls [(CHR ''0'', CHR ''5'')]))
    (Alt (Seq (Lit ''2'') (Seq (Cls [(CHR ''0'', CHR ''4'')]) digit_cls))
         (Seq (Opt (Cls [(CHR ''0'', CHR ''1'')])) (Seq digit_cls (Opt digit_cls))))"

definition ipformat :: rx where
  "ipformat =
     Seq octet (Seq (Lit ''.'') (Seq octet (Seq (Lit ''.'')
    (Seq octet (Seq (Lit ''.'') (Seq octet Eos))))))"

definition fqdnformat :: rx where
  "fqdnformat =
     Seq (NotAhead (Lit ''://''))
    (Seq (Ahead (Seq (Rep 1 255 Dot) Eos))
    (Seq (Rep 1 127 (Seq (Rep 1 63 Dot) (Lit ''.'')))
    (Seq (NotAhead (Seq (Star digit_cls) Eos))
    (Seq (Plus (Cls [(CHR ''a'', CHR ''z''), (CHR ''0'', CHR ''9''), (CHR ''-'', CHR ''-'')]))
    (Seq (Opt (Lit ''.'')) Eos)))))"

definition either :: "char \<Rightarrow> char \<Rightarrow> rx" where
  "either a b = Cls [(a, a), (b, b)]"

definition scheme :: rx where
  "scheme =
     Seq (Star (Cls [(CHR 0x09, CHR 0x0D), (CHR '' '', CHR '' ''), (CHR 0xA0, CHR 0xA0)]))
    (Seq (either (CHR ''h'') (CHR ''H'')) (Seq (either (CHR ''t'') (CHR ''T''))
    (Seq (either (CHR ''t'') (CHR ''T'')) (Seq (either (CHR ''p'') (CHR ''P''))
    (Seq (Opt (either (CHR ''s'') (CHR ''S''))) (Lit ''://''))))))"

record config =
  isgAddress :: "string option"
  isgIntervall :: jsval
  isgCommandIntervall :: jsval
  statusPaths :: "string list"
  valuePaths :: "string list"
  commandPaths :: "string list"

datatype extractor = IsgStatus | IsgValues | IsgCommands

datatype timer = ValueTimer | CommandTimer

datatype startup_call =
    EnsureObject string
  | Log loglevel string
  | SetConnection bool
  | SubscribeStates string
  | GetHTML string string
  | Schedule extractor string
  | SetInterval timer "(extractor \<times> string) list" jsnum

text \<open>
  The answer to the login probe \<^verbatim>\<open>getHTML('1,0')\<close>: a page with the class of its \<^verbatim>\<open>#main\<close>
  element, a status other than 200, or a failed request (the name and the message of the
  error).
\<close>

datatype probe =
    Page "string option"
  | HttpStatus int
  | FetchError string string

definition getHTML_calls :: "string \<Rightarrow> string \<Rightarrow> probe \<Rightarrow> startup_call list" where
  "getHTML_calls host sidePath pr =
     (let strURL = host @ ''/?s='' @ sidePath in
      case pr of
        Page cls \<Rightarrow> [SetConnection True]
      | HttpStatus n \<Rightarrow>
          [SetConnection False,
           Log LError (''Error: HTTP '' @ int_str n @ '' to '' @ strURL @ '' - Check ISG Address!''),
           SetConnection False]
      | FetchError name msg \<Rightarrow>
          [if is_abort name msg
           then Log LDebug (''getHTML('' @ sidePath @ '') aborted: '' @ error_text name msg)
           else Log LError (''Error: '' @ error_text name msg @ '' to '' @ strURL @
                            '' - Check ISG Address!''),
           SetConnection False])"

definition probe_message :: "probe \<Rightarrow> string" where
  "probe_message pr =
     (case pr of
        Page cls \<Rightarrow> []
      | HttpStatus n \<Rightarrow> ''HTTP '' @ int_str n
      | FetchError name msg \<Rightarrow> error_text name msg)"

text \<open>\<^verbatim>\<open>Math.max(1, Number(x) || 60) * 1000\<close>\<close>

definition interval_ms :: "jsval \<Rightarrow> jsnum" where
  "interval_ms x =
     (let n = js_Number x;
          n1 = (if truthy (Num n) then n else Fin 60 0);
          n2 = (if js_lt n1 (Fin 1 0) then Fin 1 0 else n1)
      in case n2 of
           Fin m e \<Rightarrow> in_range (m < 0) (nat (abs m)) (e + 3)
         | other \<Rightarrow> other)"

definition polling :: "config \<Rightarrow> startup_call list" where
  "polling cfg =
     map (Schedule IsgStatus) (statusPaths cfg) @
     map (Schedule IsgValues) (valuePaths cfg) @
     map (Schedule IsgCommands) (commandPaths cfg) @
     [SetInterval ValueTimer
        (map (Pair IsgValues) (valuePaths cfg) @ map (Pair IsgStatus) (statusPaths cfg))
        (interval_ms (isgIntervall cfg)),
      SetInterval CommandTimer
        (map (Pair IsgCommands) (commandPaths cfg))
        (interval_ms (isgCommandIntervall cfg))]"

text \<open>The conditions of the two early returns of \<^verbatim>\<open>main\<close>.\<close>

definition address_unset :: "config \<Rightarrow> bool" where
  "address_unset cfg =
     (case isgAddress cfg of None \<Rightarrow> True | Some a \<Rightarrow> a = [] \<or> trim a = [])"

definition address_malformed :: "config \<Rightarrow> bool" where
  "address_malformed cfg =
     (case isgAddress cfg of
        None \<Rightarrow> False
      | Some a \<Rightarrow> \<not> rx_test ipformat a \<and> \<not> rx_test fqdnformat a)"

definition host_of :: "string \<Rightarrow> string" where
  "host_of a = (let h = trim a in if rx_test scheme h then h else ''http://'' @ h)"

definition not_set :: "startup_call list" where
  "not_set = [Log LError ''Invalid configuration - isgAddress not set.'', SetConnection False]"

text \<open>
  \<^verbatim>\<open>main\<close>, with the calls it makes in order (the subscription to \<^verbatim>\<open>ISGReboot\<close> is the
  callback of the first call). The two address checks return early; only the first of them
  writes the connectivity flag.
\<close>

definition main :: "config \<Rightarrow> probe \<Rightarrow> startup_call list" where
  "main cfg pr =
     [EnsureObject ''ISGReboot'', SubscribeStates ''ISGReboot''] @
     (case isgAddress cfg of
        None \<Rightarrow> not_set
      | Some a \<Rightarrow>
          if a = [] \<or> trim a = [] then not_set
          else if \<not> rx_test ipformat a \<and> \<not> rx_test fqdnformat a then
            [Log LError (''ISG Address '' @ a @
               '' format not valid. Should be e.g. 192.168.123.123 or servicewelt.fritz.box'')]
          else
            (let host = host_of a in
             [Log LInfo (''Connecting to ISG: '' @ host @ '' ...''), SubscribeStates ''*'',
              GetHTML host ''1,0''] @
             getHTML_calls host ''1,0'' pr @
             (case pr of
                Page cls \<Rightarrow>
                  if cls = Some ''login'' then
                    [Log LError ''ISG Login failed - please check your username and password!'',
                     SetConnection False]
                  else
                    [Log LInfo ''Connected to ISG successfully.'', SetConnection True] @
                    polling cfg
              | _ \<Rightarrow>
                  [Log LError (''checkIsgCredentials error: '' @ probe_message pr)] @
                  polling cfg)))"

text \<open>
  Startup: the callback of \<^verbatim>\<open>ready\<close>, once the system configuration has been read. The flag
  is reset, the limit of the gate is taken from the configuration (\<open>configured_limit\<close> above),
  then \<^verbatim>\<open>main\<close> runs.
\<close>

definition ready :: "config \<Rightarrow> probe \<Rightarrow> startup_call list" where
  "ready cfg pr = SetConnection False # main cfg pr"


section \<open>A worked example\<close>

text \<open>
  A slider command without a lower bound, reconciled against an entity that was stored with
  an erroneous \<^verbatim>\<open>min = 0\<close>, and a gate with two slots.
\<close>

definition demo_env :: env where
  "demo_env = \<lparr>isgUmlauts = ''no'', jsonParse = (\<lambda>s. None), jsonStringify = js_String\<rparr>"

text \<open>(The two runtime functions are stand-ins: the example has no states string to parse.)\<close>

definition demo_cmd :: command where
  "demo_cmd =
     \<lparr>strGroup = ''Einstellungen.HEIZEN'', valTag = Some ''val5'',
      valTagLang = Str ''Raumtemperatur'', valType = Str ''number'', valUnit = Some ''C'',
      valRole = Str ''state'', valValue = Num (Fin 215 (- 1)), valStates = Str [],
      valMin = Str [], valMax = Num (Fin 50 0)\<rparr>"

definition demo_common :: jsobject where
  "demo_common =
     [(''name'', Str ''Raumtemperatur''), (''type'', Str ''number''), (''read'', Bool True),
      (''write'', Bool True), (''unit'', Str ''C''), (''role'', Str ''state''),
      (''min'', Num (Fin 0 0)), (''max'', Num (Fin 50 0)),
      (''states'', Obj [(''0'', Str ''Off''), (''1'', Str ''On'')])]"

definition demo_object :: iobject where
  "demo_object = \<lparr>otype = ''state'', common = Some demo_common, native = []\<rparr>"

definition demo_world :: world where
  "demo_world =
     \<lparr>objects = [''Einstellungen.HEIZEN.val5'' \<mapsto> demo_object,
                 ''Einstellungen.HEIZEN.RAUMTEMPERATUR'' \<mapsto> demo_object],
      states = Map.empty, calls = [], logged = [],
      read_error = Map.empty, write_error = Map.empty\<rparr>"

definition demo_events :: "string gate_event list" where
  "demo_events = [Submit ''status'', Submit ''values'', Submit ''commands'']"





section \<open>Properties\<close>

subsection \<open>Role classification\<close>

lemma search_from_range: "0 \<le> i \<Longrightarrow> search_from pat s i = - 1 \<or> i \<le> search_from pat s i"
proof (induction s arbitrary: i)
  case Nil
  then show ?case by simp
next
  case (Cons c cs)
  from Cons.IH [of "i + 1"] Cons.prems show ?case by auto
qed

lemma search_from_found: "0 \<le> i \<Longrightarrow> (search_from pat s i > - 1) = sublist pat s"
proof (induction s arbitrary: i)
  case Nil
  then show ?case by auto
next
  case (Cons c cs)
  from Cons.IH [of "i + 1"] Cons.prems show ?case
    by (auto simp: sublist_Cons_right)
qed

lemma search_contains: "(search s pat > - 1) = sublist pat s"
  by (simp add: search_def search_from_found)

lemma search_starts: "(search s pat = 0) = prefix pat s"
proof (cases s)
  case Nil
  then show ?thesis by (auto simp: search_def)
next
  case (Cons c cs)
  have "search_from pat cs 1 \<noteq> 0"
    using search_from_range [of 1 pat cs] by auto
  with Cons show ?thesis by (simp add: search_def)
qed

text \<open>
  C6. The role of a key is decided by the first matching rule, in this order: a key that
  contains TEMP or FROST, or starts with SOLLWERT_HK or ISTWERT_HK, is a temperature; else
  a key that contains DRUCK is a pressure; else a key that starts with P_ is a power
  consumption; else a key that contains FEUCHTE is a humidity; every other key gets the
  generic role.
\<close>

theorem valueRole_first_match:
  "valueRole key =
     (if sublist ''TEMP'' key \<or> sublist ''FROST'' key \<or>
         prefix ''SOLLWERT_HK'' key \<or> prefix ''ISTWERT_HK'' key
      then ''value.temperature''
      else if sublist ''DRUCK'' key then ''value.pressure''
      else if prefix ''P_'' key then ''value.power.consumption''
      else if sublist ''FEUCHTE'' key then ''value.humidity''
      else ''value'')"
  unfolding valueRole_def search_contains search_starts by (rule refl)

subsection \<open>Bounds of the desired metadata\<close>

lemma typeof_undefined: "(typeof v = ''undefined'') = (v = Undefined)"
  by (cases v) auto

lemma trim_undefined: "trim ''undefined'' = ''undefined''"
  by code_simp

lemma trim_null: "trim ''null'' = ''null''"
  by code_simp

lemma str_to_num_undefined: "str_to_num ''undefined'' = NaN"
  by code_simp

lemma str_to_num_null: "str_to_num ''null'' = NaN"
  by code_simp

lemma spec_bound_Undefined: "spec_bound Undefined = None"
  by (simp add: spec_bound_def trim_undefined str_to_num_undefined)

lemma spec_bound_Null: "spec_bound Null = None"
  by (simp add: spec_bound_def trim_null str_to_num_null)

lemma map_of_assign: "map_of (assign k v c) k' = (if k' = k then Some v else map_of c k')"
  by (simp add: assign_def update_conv')

lemma map_of_delete_prop: "map_of (delete_prop k c) k' = (if k' = k then None else map_of c k')"
  by (simp add: delete_prop_def delete_conv')

lemma addBound_lookup:
  "map_of (fst (addBound key ident v (c, l))) k =
     (if k = key \<and> spec_bound v \<noteq> None then map_option Num (spec_bound v) else map_of c k)"
proof (cases "v = Undefined \<or> v = Null")
  case True
  then show ?thesis
    by (auto simp: addBound_def spec_bound_Undefined spec_bound_Null)
next
  case False
  then have "typeof v \<noteq> ''undefined''" "v \<noteq> Null"
    by (simp_all add: typeof_undefined)
  then show ?thesis
    by (simp add: addBound_def spec_bound_def Let_def map_of_assign)
qed

lemma addStates_lookup:
  "k \<noteq> ''states'' \<Longrightarrow> map_of (fst (addStates ev tag vs (c, l))) k = map_of c k"
  by (auto simp: addStates_def Let_def map_of_assign split: jsval.splits option.splits)

lemma addBound_fst:
  "map_of (fst (addBound key ident v st)) k =
     (if k = key \<and> spec_bound v \<noteq> None then map_option Num (spec_bound v)
      else map_of (fst st) k)"
  by (cases st) (simp only: addBound_lookup fst_conv)

lemma addStates_fst:
  "k \<noteq> ''states'' \<Longrightarrow> map_of (fst (addStates ev tag vs st)) k = map_of (fst st) k"
  by (cases st) (simp add: addStates_lookup)

lemma addStates_falsy: "\<not> truthy vs \<Longrightarrow> addStates ev tag vs st = st"
  by (cases st) (simp add: addStates_def)

lemma desired_states_falsy:
  "\<not> truthy (valStates cmd) \<Longrightarrow> map_of (desiredCommon ev cmd) ''states'' = None"
  by (simp add: desiredCommon_def build_def addStates_falsy addBound_fst baseCommon_def)

lemma desired_min:
  "map_of (desiredCommon ev cmd) ''min'' = map_option Num (spec_bound (valMin cmd))"
  by (simp add: desiredCommon_def build_def addStates_fst addBound_fst baseCommon_def)

lemma desired_max:
  "map_of (desiredCommon ev cmd) ''max'' = map_option Num (spec_bound (valMax cmd))"
  by (simp add: desiredCommon_def build_def addStates_fst addBound_fst baseCommon_def)

lemma spec_bound_empty: "spec_bound (Str []) = None"
  by (simp add: spec_bound_def trim_def)

lemma spec_bound_NaN: "spec_bound (Num NaN) = None"
proof -
  have "trim ''NaN'' = ''NaN''" and "str_to_num ''NaN'' = NaN" by code_simp+
  then show ?thesis by (simp add: spec_bound_def)
qed

lemma spec_bound_PosInf: "spec_bound (Num PosInf) = None"
proof -
  have "trim ''Infinity'' = ''Infinity''" and "str_to_num ''Infinity'' = PosInf" by code_simp+
  then show ?thesis by (simp add: spec_bound_def)
qed

lemma spec_bound_NegInf: "spec_bound (Num NegInf) = None"
proof -
  have "trim ''-Infinity'' = ''-Infinity''" and "str_to_num ''-Infinity'' = NegInf"
    by code_simp+
  then show ?thesis by (simp add: spec_bound_def)
qed

text \<open>
  The empty string is tested on its own because \<^verbatim>\<open>Number('')\<close> is 0, a finite number: without
  the test an empty bound would be stored as 0.
\<close>

lemma empty_string_is_zero: "str_to_num [] = Fin 0 0"
  by (simp add: str_to_num_def trim_def)

text \<open>
  C1. The desired metadata of a command holds the key \<^verbatim>\<open>min\<close> (and likewise \<^verbatim>\<open>max\<close>) exactly
  when the supplied bound, converted to a string and trimmed, is not empty and parses to a
  finite number, and it then holds that number. An undefined, null, empty or non-finite
  bound leaves the key absent; it is never set to 0.
\<close>

theorem desiredCommon_bounds:
  "map_of (desiredCommon ev cmd) ''min'' = map_option Num (spec_bound (valMin cmd)) \<and>
   map_of (desiredCommon ev cmd) ''max'' = map_option Num (spec_bound (valMax cmd)) \<and>
   spec_bound Undefined = None \<and> spec_bound Null = None \<and> spec_bound (Str []) = None \<and>
   spec_bound (Num NaN) = None \<and> spec_bound (Num PosInf) = None \<and>
   spec_bound (Num NegInf) = None"
  by (simp only: desired_min desired_max spec_bound_Undefined spec_bound_Null spec_bound_empty
                 spec_bound_NaN spec_bound_PosInf spec_bound_NegInf)

subsection \<open>The id pattern of safeSetState\<close>

lemma ms_digit_cls:
  "ms digit_cls s = (case s of [] \<Rightarrow> [] | c # t \<Rightarrow> if is_digit c then [t] else [])"
  by (auto simp: digit_cls_def in_cls_def is_digit_def code_def split: list.splits)

lemma rep_upto_Nil: "rep_upto f n [] = []"
  by (cases n) simp_all

lemma rep_upto_digits:
  "([] \<in> set (rep_upto (ms digit_cls) n [u])) = (list_all is_digit u \<and> length u \<le> n)"
proof (induction n arbitrary: u)
  case 0
  then show ?case by auto
next
  case (Suc n)
  show ?case
  proof (cases u)
    case Nil
    then show ?thesis by simp
  next
    case (Cons c t)
    then show ?thesis
      using Suc.IH [of t] by (simp add: ms_digit_cls rep_upto_Nil)
  qed
qed

lemma ms_Seq_Eos: "(ms (Seq a Eos) s \<noteq> []) = ([] \<in> set (ms a s))"
  by (induction "ms a s") (auto simp: set_empty [symmetric] simp del: set_empty)

lemma plus_digits: "([] \<in> set (ms (Plus digit_cls) s)) = (s \<noteq> [] \<and> list_all is_digit s)"
proof (cases s)
  case Nil
  then show ?thesis by (simp add: ms_digit_cls rep_upto_Nil)
next
  case (Cons c t)
  then show ?thesis
    using rep_upto_digits [of "Suc (length t)" t]
    by (simp add: ms_digit_cls rep_upto_Nil del: rep_upto.simps)
qed

lemma ms_Seq_Lit:
  "ms (Seq (Lit l) r) s = (if prefix l s then remdups (ms r (drop (length l) s)) else [])"
  by simp

lemma rx_test_valNN:
  "rx_test valNN s = (\<exists>ds. s = ''val'' @ ds \<and> ds \<noteq> [] \<and> list_all is_digit ds)"
proof -
  let ?rest = "drop (length ''val'') s"
  have "ms valNN s = (if prefix ''val'' s then remdups (ms (Seq (Plus digit_cls) Eos) ?rest) else [])"
    unfolding valNN_def by (rule ms_Seq_Lit)
  then have "rx_test valNN s = (prefix ''val'' s \<and> ms (Seq (Plus digit_cls) Eos) ?rest \<noteq> [])"
    by (simp only: rx_test_def remdups_eq_nil_iff split: if_split) simp
  also have "\<dots> = (prefix ''val'' s \<and> ?rest \<noteq> [] \<and> list_all is_digit ?rest)"
    by (simp only: ms_Seq_Eos plus_digits)
  also have "\<dots> = (\<exists>ds. s = ''val'' @ ds \<and> ds \<noteq> [] \<and> list_all is_digit ds)"
    by (auto simp: prefix_def)
  finally show ?thesis .
qed

lemma is_valNN_iff:
  "is_valNN ident =
     (\<exists>ds. last_segment ident = ''val'' @ ds \<and> ds \<noteq> [] \<and> list_all is_digit ds)"
  by (auto simp: is_valNN_def Let_def rx_test_valNN)

text \<open>
  C10. When the last segment of the id is not \<^verbatim>\<open>val\<close> followed by one or more digits,
  \<open>safeSetState\<close> makes a single call: it writes the given value with the given
  acknowledgement flag and expiry. It does not fetch the object, does not clamp, and leaves
  the rest of the world as it was.
\<close>

theorem safeSetState_direct:
  assumes "\<not> (\<exists>ds. last_segment ident = ''val'' @ ds \<and> ds \<noteq> [] \<and> list_all is_digit ds)"
  shows "safeSetState ident val ack expire w =
           w\<lparr>states := (states w)(ident \<mapsto> (val, ack, expire)),
             calls := calls w @ [SetState ident val ack expire]\<rparr>"
  using assms by (simp add: safeSetState_def setState_def is_valNN_iff)

subsection \<open>Clamping\<close>

lemma js_lt_NaN: "isNaN a \<or> isNaN b \<Longrightarrow> \<not> js_lt a b"
  by (cases a; cases b) auto

lemma below_min_Num: "below_min (Num lo) (Num v) = js_lt v lo"
  using js_lt_NaN [of v lo] by (auto simp: below_min_def)

lemma above_max_Num: "above_max (Num hi) (Num v) = js_gt v hi"
  using js_lt_NaN [of hi v] by (auto simp: above_max_def js_gt_def)

lemma clamp_numeric:
  assumes "map_of c ''min'' = Some (Num lo)" and "map_of c ''max'' = Some (Num hi)"
  shows "fst (clamp ident c (Num v)) =
           (if js_lt v lo then Num lo else if js_gt v hi then Num lo else Num v)"
  using assms
  by (simp add: clamp_def get_prop_def below_min_Num above_max_Num Let_def split_def)

text \<open>
  C3, amended. For an id whose last segment is \<^verbatim>\<open>val\<close> followed by digits, and an entity that
  declares the numbers \<open>lo\<close> and \<open>hi\<close> as its bounds: a number below \<open>lo\<close> is written as \<open>lo\<close>, a
  number above \<open>hi\<close> is written as \<open>lo\<close> too, and any other number is written unchanged.
\<close>

theorem safeSetState_clamp:
  assumes "is_valNN ident" and "read_error w ident = None"
    and "objects w ident = Some ob" and "common ob = Some c"
    and "map_of c ''min'' = Some (Num lo)" and "map_of c ''max'' = Some (Num hi)"
  shows "states (safeSetState ident (Num v) ack expire w) ident =
           Some (if js_lt v lo then Num lo else if js_gt v hi then Num lo else Num v, ack, expire)"
proof -
  have "safeSetState ident (Num v) ack expire w =
          setState ident (fst (clamp ident c (Num v))) ack expire
            (w\<lparr>calls := calls w @ [GetObject ident],
               logged := logged w @ snd (clamp ident c (Num v))\<rparr>)"
    using assms(1-4) by (simp add: safeSetState_def getObject_def split_def Let_def)
  then show ?thesis
    using clamp_numeric [OF assms(5,6)] by (simp add: setState_def)
qed

subsection \<open>newCommon\<close>

lemma map_of_replaceBound:
  "map_of (replaceBound key d c) k = (if k = key then map_of d key else map_of c k)"
  by (auto simp: replaceBound_def hasOwnProperty_def get_prop_def map_of_assign
                 map_of_delete_prop split: option.splits)

lemma map_of_replaceStates:
  "map_of (replaceStates d c) k =
     (if k = ''states'' then (case map_of d ''states'' of None \<Rightarrow> map_of c ''states'' | Some v \<Rightarrow> Some v)
      else map_of c k)"
  by (auto simp: replaceStates_def hasOwnProperty_def get_prop_def map_of_assign split: option.splits)

lemma newCommon_lookup:
  "map_of (newCommon c d) k =
     (if k \<in> {''name'', ''type'', ''read'', ''write'', ''unit'', ''role''} then Some (get_prop d k)
      else if k = ''min'' then map_of d ''min''
      else if k = ''max'' then map_of d ''max''
      else if k = ''states'' then
        (case map_of d ''states'' of None \<Rightarrow> map_of c ''states'' | Some v \<Rightarrow> Some v)
      else map_of c k)"
  by (simp add: newCommon_def map_of_replaceBound map_of_replaceStates map_of_assign split: option.split)

lemma newCommon_idem: "get_prop (newCommon (newCommon c d) d) k = get_prop (newCommon c d) k"
  by (simp add: get_prop_def newCommon_lookup split: option.splits)

lemma newCommon_self: "get_prop (newCommon d d) k = get_prop d k"
  by (auto simp add: get_prop_def newCommon_lookup split: option.splits)

lemma same_refl: "same ev a a"
  by (simp add: same_def)

lemma needUpdate_idem: "\<not> needUpdate ev (newCommon c d) (newCommon (newCommon c d) d)"
  by (simp add: needUpdate_def list_ex_iff newCommon_idem same_refl)

lemma needUpdate_self: "\<not> needUpdate ev d (newCommon d d)"
  by (simp add: needUpdate_def list_ex_iff newCommon_self same_refl)

subsection \<open>The calls of a reconciliation\<close>

lemma safeSetState_objects [simp]: "objects (safeSetState i v a e w) = objects w"
  by (simp add: safeSetState_def getObject_def setState_def Let_def split_def
           split: sum.splits option.splits)

lemma safeSetState_read_error [simp]: "read_error (safeSetState i v a e w) = read_error w"
  by (simp add: safeSetState_def getObject_def setState_def Let_def split_def
           split: sum.splits option.splits)

lemma safeSetState_write_error [simp]: "write_error (safeSetState i v a e w) = write_error w"
  by (simp add: safeSetState_def getObject_def setState_def Let_def split_def
           split: sum.splits option.splits)

lemma safeSetState_calls:
  "\<exists>v'. calls (safeSetState i v a e w) =
          calls w @ (if is_valNN i then [GetObject i] else []) @ [SetState i v' a e]"
  by (simp add: safeSetState_def getObject_def setState_def Let_def split_def
           split: sum.splits option.splits)


lemma create_existing:
  assumes "valTag cmd \<noteq> None" and "read_error w (id_of ev cmd) = None"
    and "objects w (id_of ev cmd) = Some ob"
  shows "createISGCommands ev cmd w =
     (let ident = id_of ev cmd; 
          nc = newCommon (existing_of ob) (desiredCommon ev cmd);
          w1 = w\<lparr>logged := logged w @ snd (build ev cmd), calls := calls w @ [GetObject ident]\<rparr>
      in if needUpdate ev (existing_of ob) nc then
           (case extendObject ident nc w1 of
              (Some err2, w2) \<Rightarrow>
                 safeSetState ident (valValue cmd) True None
                   (adapter_log LError (''createISGCommands: extendObject failed for '' @ ident @
                                         '': '' @ err2) w2)
            | (None, w2) \<Rightarrow> safeSetState ident (valValue cmd) True None w2)
         else safeSetState ident (valValue cmd) True None w1)"
  using assms by (auto simp add: createISGCommands_def getObject_def Let_def)

lemma create_settled:
  assumes "valTag cmd \<noteq> None" and "read_error w (id_of ev cmd) = None"
    and "objects w (id_of ev cmd) = Some ob"
    and "\<not> needUpdate ev (existing_of ob) (newCommon (existing_of ob) (desiredCommon ev cmd))"
  shows "\<exists>v'. calls (createISGCommands ev cmd w) =
           calls w @ [GetObject (id_of ev cmd)] @
           (if is_valNN (id_of ev cmd) then [GetObject (id_of ev cmd)] else []) @
           [SetState (id_of ev cmd) v' True None]"
proof -
  let ?w1 = "w\<lparr>logged := logged w @ snd (build ev cmd),
               calls := calls w @ [GetObject (id_of ev cmd)]\<rparr>"
  have "createISGCommands ev cmd w = safeSetState (id_of ev cmd) (valValue cmd) True None ?w1"
    using assms(4) by (simp add: create_existing [OF assms(1-3)] Let_def)
  then show ?thesis
    using safeSetState_calls [of "id_of ev cmd" "valValue cmd" True None ?w1] by simp
qed

lemma create_calls:
  assumes "valTag cmd \<noteq> None" and "read_error w (id_of ev cmd) = None"
    and "objects w (id_of ev cmd) = Some ob"
  shows "\<exists>v'. calls (createISGCommands ev cmd w) =
           calls w @ [GetObject (id_of ev cmd)] @
           (if needUpdate ev (existing_of ob) (newCommon (existing_of ob) (desiredCommon ev cmd))
            then [ExtendObject (id_of ev cmd) (newCommon (existing_of ob) (desiredCommon ev cmd))]
            else []) @
           (if is_valNN (id_of ev cmd) then [GetObject (id_of ev cmd)] else []) @
           [SetState (id_of ev cmd) v' True None]"
proof -
  let ?i = "id_of ev cmd"
  let ?nc = "newCommon (existing_of ob) (desiredCommon ev cmd)"
  let ?w1 = "w\<lparr>logged := logged w @ snd (build ev cmd), calls := calls w @ [GetObject ?i]\<rparr>"
  show ?thesis
  proof (cases "needUpdate ev (existing_of ob) ?nc")
    case False
    then show ?thesis
      using create_settled [OF assms False] by simp
  next
    case True
    obtain r w2 where ext: "extendObject ?i ?nc ?w1 = (r, w2)" by fastforce
    then have c2: "calls w2 = calls w @ [GetObject ?i, ExtendObject ?i ?nc]"
      by (auto simp: extendObject_def split: option.splits)
    show ?thesis
    proof (cases r)
      case None
      then have "createISGCommands ev cmd w = safeSetState ?i (valValue cmd) True None w2"
        using True ext by (simp add: create_existing [OF assms] Let_def)
      then show ?thesis
        using safeSetState_calls [of ?i "valValue cmd" True None w2] c2 True by auto
    next
      case (Some err2)
      let ?w3 = "adapter_log LError (''createISGCommands: extendObject failed for '' @ ?i @
                                         '': '' @ err2) w2"
      have "createISGCommands ev cmd w = safeSetState ?i (valValue cmd) True None ?w3"
        using True ext Some by (simp add: create_existing [OF assms] Let_def)
      moreover have "calls ?w3 = calls w2" by (simp add: adapter_log_def)
      ultimately show ?thesis
        using safeSetState_calls [of ?i "valValue cmd" True None ?w3] c2 True by auto
    qed
  qed
qed

lemma create_calls_error:
  assumes "valTag cmd \<noteq> None" and "read_error w (id_of ev cmd) = Some err"
  shows "calls (createISGCommands ev cmd w) = calls w @ [GetObject (id_of ev cmd)]"
  using assms by (auto simp: createISGCommands_def getObject_def Let_def adapter_log_def)

lemma create_read_error:
  "read_error (createISGCommands ev cmd w) = read_error w"
  by (simp add: createISGCommands_def getObject_def setObjectNotExists_def extendObject_def
                adapter_log_def Let_def
           split: option.splits sum.splits prod.splits)

subsection \<open>Stale bounds\<close>

lemma nat_digits_no_u: "CHR ''u'' \<notin> set (nat_digits n)"
proof (induction n rule: nat_digits.induct)
  case (1 n)
  have digit: "CHR ''u'' \<noteq> char_of (48 + d)" if "d < 10" for d :: nat
  proof
    assume "CHR ''u'' = char_of (48 + d)"
    then have "of_char (char_of (48 + d)) = (of_char (CHR ''u'') :: nat)" by simp
    with that show False by simp
  qed
  show ?case
  proof (cases "n < 10")
    case True
    then show ?thesis by (simp add: nat_digits.simps [of n] digit)
  next
    case False
    then show ?thesis
      using "1.IH" by (simp add: nat_digits.simps [of n] digit)
  qed
qed

lemma strip_zeros_subset: "set (strip_zeros ds) \<subseteq> set ds"
  unfolding strip_zeros_def using set_dropWhileD by fastforce

lemma pos_str_no_u: "CHR ''u'' \<notin> set (pos_str m e)"
proof -
  have s: "CHR ''u'' \<notin> set (strip_zeros (nat_digits m))"
    using strip_zeros_subset nat_digits_no_u by blast
  then have "CHR ''u'' \<notin> set (take j (strip_zeros (nat_digits m)))"
    and "CHR ''u'' \<notin> set (drop j (strip_zeros (nat_digits m)))" for j
    by (auto dest: in_set_takeD in_set_dropD)
  with s show ?thesis
    by (simp add: pos_str_def Let_def nat_digits_no_u)
qed

lemma num_str_not_undefined: "num_str x \<noteq> ''undefined''"
proof -
  have "CHR ''u'' \<notin> set (num_str x)"
    by (cases x) (simp_all add: pos_str_no_u)
  then show ?thesis by auto
qed

text \<open>
  The values whose string form is not the text \<^verbatim>\<open>undefined\<close> include every number, null, the
  booleans and the empty string.
\<close>

lemma string_form_defined:
  "js_String (Num x) \<noteq> ''undefined'' \<and> js_String Null \<noteq> ''undefined'' \<and>
   js_String (Bool b) \<noteq> ''undefined'' \<and> js_String (Str []) \<noteq> ''undefined''"
  by (simp add: num_str_not_undefined)

lemma stale_needs_update:
  assumes "key = ''min'' \<or> key = ''max''" and "map_of c key = Some v"
    and "js_String v \<noteq> ''undefined''" and "\<not> hasOwnProperty d key"
  shows "needUpdate ev c (newCommon c d)" and "\<not> hasOwnProperty (newCommon c d) key"
proof -
  have none: "map_of (newCommon c d) key = None"
    using assms(1,4) by (auto simp: newCommon_lookup hasOwnProperty_def)
  then show "\<not> hasOwnProperty (newCommon c d) key"
    by (simp add: hasOwnProperty_def)
  have "\<not> same ev (get_prop c key) (get_prop (newCommon c d) key)"
    using none assms(2,3) by (simp add: same_def get_prop_def)
  moreover have "key \<in> set keysToCheck"
    using assms(1) by (auto simp: keysToCheck_def)
  ultimately show "needUpdate ev c (newCommon c d)"
    unfolding needUpdate_def list_ex_iff by blast
qed

lemma existing_of_Some: "common ob = Some c \<Longrightarrow> existing_of ob = c"
  by (simp add: existing_of_def)


subsection \<open>What the store holds after a reconciliation\<close>

lemma patch_fold:
  "map_of (foldl (\<lambda>acc k. case map_of c k of Some v \<Rightarrow> assign k v acc | None \<Rightarrow> acc) s ks) k =
     (if k \<in> set ks then (case map_of c k of Some v \<Rightarrow> Some v | None \<Rightarrow> map_of s k)
      else map_of s k)"
  by (induction ks arbitrary: s) (auto simp: map_of_assign split: option.splits)

lemma map_of_patch_common:
  "map_of (patch_common s c) k = (case map_of c k of Some v \<Rightarrow> Some v | None \<Rightarrow> map_of s k)"
proof (cases "map_of c k")
  case None
  then show ?thesis by (simp add: patch_common_def patch_fold)
next
  case (Some v)
  then have "k \<in> fst ` set c" by (metis map_of_eq_None_iff option.distinct(1))
  with Some show ?thesis by (simp add: patch_common_def patch_fold)
qed

lemma create_patch_stored:
  assumes "valTag cmd \<noteq> None" and "read_error w (id_of ev cmd) = None"
    and "objects w (id_of ev cmd) = Some ob"
    and "needUpdate ev (existing_of ob) (newCommon (existing_of ob) (desiredCommon ev cmd))"
    and "write_error w (id_of ev cmd) = None"
  shows "objects (createISGCommands ev cmd w) (id_of ev cmd) =
           Some (ob\<lparr>common := Some (patch_common (existing_of ob)
                                      (newCommon (existing_of ob) (desiredCommon ev cmd)))\<rparr>)"
  using assms(3-5)
  by (simp add: create_existing [OF assms(1-3)] Let_def extendObject_def existing_of_def)

lemma create_objects_cases:
  assumes "valTag cmd \<noteq> None" and "objects w (id_of ev cmd) = Some ob"
  shows "objects (createISGCommands ev cmd w) (id_of ev cmd) = Some ob \<or>
         objects (createISGCommands ev cmd w) (id_of ev cmd) =
           Some (ob\<lparr>common := Some (patch_common (existing_of ob)
                                      (newCommon (existing_of ob) (desiredCommon ev cmd)))\<rparr>)"
proof (cases "read_error w (id_of ev cmd)")
  case (Some err)
  then show ?thesis
    using assms by (auto simp: createISGCommands_def getObject_def Let_def adapter_log_def)
next
  case None
  show ?thesis
    using assms(2)
    by (auto simp: create_existing [OF assms(1) None assms(2)] Let_def extendObject_def
                   adapter_log_def existing_of_def split: option.splits)
qed

text \<open>
  A bound that the adapter stores is a finite number: the desired metadata has no other
  value under \<^verbatim>\<open>min\<close> or \<^verbatim>\<open>max\<close>, and the new common takes its bounds from there.
\<close>

lemma spec_bound_finite: "spec_bound v = Some x \<Longrightarrow> isFinite x"
  by (auto simp: spec_bound_def Let_def split: if_splits)

lemma desired_bound_number:
  assumes "key = ''min'' \<or> key = ''max''" and "map_of (desiredCommon ev cmd) key = Some v"
  shows "\<exists>x. v = Num x \<and> isFinite x"
proof -
  from assms have "map_option Num (spec_bound (valMin cmd)) = Some v \<or>
                   map_option Num (spec_bound (valMax cmd)) = Some v"
    by (auto simp: desired_min desired_max)
  then obtain b x where "spec_bound b = Some x" and "v = Num x" by auto
  with spec_bound_finite [of b x] show ?thesis by simp
qed

lemma newCommon_bound_number:
  assumes "key = ''min'' \<or> key = ''max''"
    and "map_of (newCommon c (desiredCommon ev cmd)) key = Some v"
  shows "\<exists>x. v = Num x \<and> isFinite x"
proof -
  from assms have "map_of (desiredCommon ev cmd) key = Some v"
    by (auto simp: newCommon_lookup)
  with assms(1) show ?thesis by (rule desired_bound_number)
qed

text \<open>
  C9. When the persisted common holds states and the desired metadata has none, the new
  common keeps the stored states: every patch sent for the id carries them, and the object
  still has them after the reconciliation.
\<close>

theorem states_kept:
  assumes "valTag cmd \<noteq> None"
    and "objects w (id_of ev cmd) = Some ob" and "common ob = Some c"
    and "map_of c ''states'' = Some st"
    and "\<not> hasOwnProperty (desiredCommon ev cmd) ''states''"
  shows "map_of (newCommon c (desiredCommon ev cmd)) ''states'' = Some st \<and>
         (\<forall>nc. ExtendObject (id_of ev cmd) nc \<in> set (calls (createISGCommands ev cmd w)) \<longrightarrow>
               ExtendObject (id_of ev cmd) nc \<in> set (calls w) \<or> map_of nc ''states'' = Some st) \<and>
         (\<exists>ob' c'. objects (createISGCommands ev cmd w) (id_of ev cmd) = Some ob' \<and>
                   common ob' = Some c' \<and> map_of c' ''states'' = Some st)"
proof -
  let ?nc = "newCommon c (desiredCommon ev cmd)"
  have ex: "existing_of ob = c" using assms(3) by (rule existing_of_Some)
  have keep: "map_of ?nc ''states'' = Some st"
    using assms(4,5) by (simp add: newCommon_lookup hasOwnProperty_def)
  have patches: "ExtendObject (id_of ev cmd) nc \<in> set (calls w) \<or> map_of nc ''states'' = Some st"
    if "ExtendObject (id_of ev cmd) nc \<in> set (calls (createISGCommands ev cmd w))" for nc
  proof (cases "read_error w (id_of ev cmd)")
    case (Some err)
    with that create_calls_error [OF assms(1) Some] show ?thesis by simp
  next
    case None
    from create_calls [OF assms(1) None assms(2)] that ex keep show ?thesis
      by (auto split: if_splits)
  qed
  have "\<exists>ob' c'. objects (createISGCommands ev cmd w) (id_of ev cmd) = Some ob' \<and>
                   common ob' = Some c' \<and> map_of c' ''states'' = Some st"
  proof -
    have "map_of (patch_common c ?nc) ''states'' = Some st"
      using keep by (simp add: map_of_patch_common)
    with create_objects_cases [OF assms(1,2)] ex assms(3,4) show ?thesis by auto
  qed
  with keep patches show ?thesis by blast
qed

subsection \<open>Reconciling twice\<close>

text \<open>
  A bound that the desired metadata lacks is left out of the patch, and the store keeps what
  a patch leaves out: the bound is still stored after the reconciliation.
\<close>

lemma stale_bound_stays:
  assumes "valTag cmd \<noteq> None"
    and "objects w (id_of ev cmd) = Some ob" and "common ob = Some c"
    and "key = ''min'' \<or> key = ''max''" and "map_of c key = Some v"
    and "\<not> hasOwnProperty (desiredCommon ev cmd) key"
  shows "\<exists>ob' c'. objects (createISGCommands ev cmd w) (id_of ev cmd) = Some ob' \<and>
                  common ob' = Some c' \<and> map_of c' key = Some v"
proof -
  have ex: "existing_of ob = c" using assms(3) by (rule existing_of_Some)
  have "map_of (newCommon c (desiredCommon ev cmd)) key = None"
    using assms(4,6) by (auto simp: newCommon_lookup hasOwnProperty_def)
  then have kept: "map_of (patch_common c (newCommon c (desiredCommon ev cmd))) key = Some v"
    using assms(5) by (simp add: map_of_patch_common)
  let ?ob = "ob\<lparr>common := Some (patch_common c (newCommon c (desiredCommon ev cmd)))\<rparr>"
  from create_objects_cases [OF assms(1,2)] ex
  consider "objects (createISGCommands ev cmd w) (id_of ev cmd) = Some ob"
    | "objects (createISGCommands ev cmd w) (id_of ev cmd) = Some ?ob"
    by auto
  then show ?thesis
  proof cases
    case 1
    with assms(3,5) show ?thesis by blast
  next
    case 2
    moreover have "common ?ob = Some (patch_common c (newCommon c (desiredCommon ev cmd)))"
      by simp
    ultimately show ?thesis using kept by blast
  qed
qed

lemma stale_bound_patched_again:
  assumes "valTag cmd \<noteq> None" and "read_error w (id_of ev cmd) = None"
    and "objects w (id_of ev cmd) = Some ob" and "common ob = Some c"
    and "key = ''min'' \<or> key = ''max''" and "map_of c key = Some v"
    and "js_String v \<noteq> ''undefined''"
    and "\<not> hasOwnProperty (desiredCommon ev cmd) key"
  shows "\<exists>c' v'. calls (createISGCommands ev cmd (createISGCommands ev cmd w)) =
           calls (createISGCommands ev cmd w) @
           [GetObject (id_of ev cmd),
            ExtendObject (id_of ev cmd) (newCommon c' (desiredCommon ev cmd))] @
           (if is_valNN (id_of ev cmd) then [GetObject (id_of ev cmd)] else []) @
           [SetState (id_of ev cmd) v' True None] \<and>
           map_of c' key = Some v \<and>
           \<not> hasOwnProperty (newCommon c' (desiredCommon ev cmd)) key"
proof -
  let ?w = "createISGCommands ev cmd w"
  from stale_bound_stays [OF assms(1,3,4,5,6,8)]
  obtain ob' c' where ob': "objects ?w (id_of ev cmd) = Some ob'"
    and c': "common ob' = Some c'" and still: "map_of c' key = Some v"
    by (elim exE conjE)
  have re: "read_error ?w (id_of ev cmd) = None" using assms(2) by (simp only: create_read_error)
  have ex: "existing_of ob' = c'" using c' by (rule existing_of_Some)
  from stale_needs_update [OF assms(5) still assms(7,8)]
  have need: "needUpdate ev c' (newCommon c' (desiredCommon ev cmd))"
    and gone: "\<not> hasOwnProperty (newCommon c' (desiredCommon ev cmd)) key" by simp_all
  from create_calls [OF assms(1) re ob'] 
  obtain v' where "calls (createISGCommands ev cmd ?w) =
           calls ?w @ [GetObject (id_of ev cmd)] @
           (if needUpdate ev (existing_of ob') (newCommon (existing_of ob') (desiredCommon ev cmd))
            then [ExtendObject (id_of ev cmd) (newCommon (existing_of ob') (desiredCommon ev cmd))]
            else []) @
           (if is_valNN (id_of ev cmd) then [GetObject (id_of ev cmd)] else []) @
           [SetState (id_of ev cmd) v' True None]" by (elim exE)
  then have "calls (createISGCommands ev cmd ?w) =
           calls ?w @
           [GetObject (id_of ev cmd),
            ExtendObject (id_of ev cmd) (newCommon c' (desiredCommon ev cmd))] @
           (if is_valNN (id_of ev cmd) then [GetObject (id_of ev cmd)] else []) @
           [SetState (id_of ev cmd) v' True None]"
    using need by (simp only: ex if_True append_Cons append_Nil)
  with still gone show ?thesis by (intro exI [of _ c'] exI [of _ v'] conjI)
qed

text \<open>
  Without such a bound, and with the store taking each supplied key as a whole, the second
  reconciliation makes no metadata call: the common that the first one created, left alone
  or patched agrees with the desired metadata on every field that is compared.
\<close>

lemma patched_keeps:
  assumes "hasOwnProperty c ''min'' \<longrightarrow> hasOwnProperty d ''min''"
    and "hasOwnProperty c ''max'' \<longrightarrow> hasOwnProperty d ''max''"
  shows "map_of (patch_common c (newCommon c d)) k = map_of (newCommon c d) k"
proof (cases "map_of (newCommon c d) k")
  case (Some v)
  then show ?thesis by (simp add: map_of_patch_common)
next
  case None
  have "map_of c k = None"
  proof (cases "k = ''min'' \<or> k = ''max''")
    case True
    with None have "map_of d k = None" by (auto simp: newCommon_lookup)
    with True assms show ?thesis by (auto simp: hasOwnProperty_def)
  next
    case False
    note l = newCommon_lookup [of c d k]
    have "k \<notin> {''name'', ''type'', ''read'', ''write'', ''unit'', ''role''}"
      using None l by (metis option.distinct(1))
    show ?thesis
    proof (cases "k = ''states''")
      case True
      with None show ?thesis by (simp add: newCommon_lookup split: option.splits)
    next
      case False
      with None l \<open>\<not> (k = ''min'' \<or> k = ''max'')\<close>
        \<open>k \<notin> {''name'', ''type'', ''read'', ''write'', ''unit'', ''role''}\<close>
      show ?thesis by (simp only: if_False de_Morgan_disj)
    qed
  qed
  with None show ?thesis by (simp add: map_of_patch_common)
qed

lemma newCommon_again:
  assumes "\<And>k. map_of p k = map_of (newCommon c d) k"
  shows "map_of (newCommon p d) k = map_of p k"
  by (simp add: newCommon_lookup assms split: option.splits)

lemma patched_settled:
  assumes "hasOwnProperty c ''min'' \<longrightarrow> hasOwnProperty d ''min''"
    and "hasOwnProperty c ''max'' \<longrightarrow> hasOwnProperty d ''max''"
  shows "\<not> needUpdate ev (patch_common c (newCommon c d))
                        (newCommon (patch_common c (newCommon c d)) d)"
proof -
  have "get_prop (newCommon (patch_common c (newCommon c d)) d) k =
        get_prop (patch_common c (newCommon c d)) k" for k
    using newCommon_again [of "patch_common c (newCommon c d)" c d k, OF patched_keeps [OF assms]]
    by (simp add: get_prop_def)
  then show ?thesis
    by (simp add: needUpdate_def list_ex_iff same_refl)
qed

lemma reconcile_settles:
  assumes "valTag cmd \<noteq> None" and "read_error w (id_of ev cmd) = None"
    and "write_error w (id_of ev cmd) = None"
    and "\<And>ob key. objects w (id_of ev cmd) = Some ob \<Longrightarrow> key = ''min'' \<or> key = ''max'' \<Longrightarrow>
           hasOwnProperty (existing_of ob) key \<Longrightarrow> hasOwnProperty (desiredCommon ev cmd) key"
  shows "\<exists>v'. calls (createISGCommands ev cmd (createISGCommands ev cmd w)) =
           calls (createISGCommands ev cmd w) @ [GetObject (id_of ev cmd)] @
           (if is_valNN (id_of ev cmd) then [GetObject (id_of ev cmd)] else []) @
           [SetState (id_of ev cmd) v' True None]"
proof -
  let ?w = "createISGCommands ev cmd w"
  let ?d = "desiredCommon ev cmd"
  have "\<exists>ob. objects ?w (id_of ev cmd) = Some ob \<and>
             \<not> needUpdate ev (existing_of ob) (newCommon (existing_of ob) ?d)"
  proof (cases "objects w (id_of ev cmd)")
    case None
    then show ?thesis
      using assms(1-3)
      by (simp add: createISGCommands_def getObject_def Let_def setObjectNotExists_def
                    existing_of_def needUpdate_self)
  next
    case (Some ob)
    show ?thesis
    proof (cases "needUpdate ev (existing_of ob) (newCommon (existing_of ob) ?d)")
      case True
      have "\<not> needUpdate ev (patch_common (existing_of ob) (newCommon (existing_of ob) ?d))
               (newCommon (patch_common (existing_of ob) (newCommon (existing_of ob) ?d)) ?d)"
        using assms(4) [OF Some] by (intro patched_settled) simp_all
      then show ?thesis
        using create_patch_stored [OF assms(1,2) Some True assms(3)]
        by (simp add: existing_of_def)
    next
      case False
      then show ?thesis
        using Some by (simp add: create_existing [OF assms(1,2) Some] Let_def)
    qed
  qed
  then obtain ob where ob: "objects ?w (id_of ev cmd) = Some ob"
    and settled: "\<not> needUpdate ev (existing_of ob) (newCommon (existing_of ob) ?d)"
    by blast
  have "read_error ?w (id_of ev cmd) = None" using assms(2) by (simp add: create_read_error)
  from create_settled [OF assms(1) this ob settled] show ?thesis .
qed

subsection \<open>Fetch Gate\<close>

lemma fin_val_whole: "fin_val a 0 = of_int a"
  by (simp add: fin_val_def pow10_def)

lemma js_lt_down: "a \<le> b \<Longrightarrow> js_lt (Fin b 0) l \<Longrightarrow> js_lt (Fin a 0) l"
proof (cases l)
  case (Fin m e)
  assume "a \<le> b" and "js_lt (Fin b 0) l"
  then have "(of_int a :: rat) \<le> of_int b" and "of_int b < fin_val m e"
    using Fin by (simp_all add: fin_val_def pow10_def)
  then show ?thesis using Fin by (simp add: fin_val_def pow10_def)
qed simp_all

lemma js_lt_ceiling: "js_lt (Fin (r - 1) 0) (Fin m e) \<Longrightarrow> r \<le> \<lceil>fin_val m e\<rceil>"
proof -
  assume "js_lt (Fin (r - 1) 0) (Fin m e)"
  then have "of_int (r - 1) < fin_val m e" by (simp add: fin_val_def [of "r - 1"] pow10_def)
  then have "r - 1 < \<lceil>fin_val m e\<rceil>" by (simp only: less_ceiling_iff)
  then show ?thesis by simp
qed

lemma runQueue_limit [simp]: "maxConcurrentFetches (runQueue g) = maxConcurrentFetches g"
  by (induction g rule: runQueue.induct) (subst runQueue.simps, simp split: list.splits)

lemma runQueue_settled [simp]: "settled (runQueue g) = settled g"
  by (induction g rule: runQueue.induct) (subst runQueue.simps, simp split: list.splits)

lemma runQueue_inv: "gate_inv g \<Longrightarrow> gate_inv (runQueue g)"
proof (induction g rule: runQueue.induct)
  case (1 g)
  show ?case
  proof (cases "queue g")
    case Nil
    with "1.prems" show ?thesis by (subst runQueue.simps) simp
  next
    case (Cons item rest)
    show ?thesis
    proof (cases "js_lt (Fin (running g) 0) (maxConcurrentFetches g)")
      case True
      let ?g1 = "g\<lparr>queue := rest, running := running g + 1,
                     started := started g @ [item], active := active g @ [item]\<rparr>"
      have "gate_inv ?g1"
        using "1.prems" True by (auto simp: gate_inv_def)
      from "1.IH" [OF Cons True this] show ?thesis
        using Cons True by (subst runQueue.simps) simp
    next
      case False
      with Cons "1.prems" show ?thesis by (subst runQueue.simps) simp
    qed
  qed
qed

lemma runQueue_fifo: "started (runQueue g) @ queue (runQueue g) = started g @ queue g"
proof (induction g rule: runQueue.induct)
  case (1 g)
  show ?case
  proof (cases "queue g")
    case Nil
    then show ?thesis by (subst (1 2) runQueue.simps) simp
  next
    case (Cons item rest)
    show ?thesis
    proof (cases "js_lt (Fin (running g) 0) (maxConcurrentFetches g)")
      case True
      from "1.IH" [OF Cons True] show ?thesis
        using Cons True by (subst (1 2) runQueue.simps) simp
    next
      case False
      with Cons show ?thesis by (subst (1 2) runQueue.simps) simp
    qed
  qed
qed

lemma runQueue_grows:
  "\<exists>more. started (runQueue g) = started g @ more \<and> active (runQueue g) = active g @ more"
proof (induction g rule: runQueue.induct)
  case (1 g)
  show ?case
  proof (cases "queue g")
    case Nil
    then show ?thesis by (subst (1 2) runQueue.simps) simp
  next
    case (Cons item rest)
    show ?thesis
    proof (cases "js_lt (Fin (running g) 0) (maxConcurrentFetches g)")
      case True
      from "1.IH" [OF Cons True] show ?thesis
        using Cons True by (subst (1 2) runQueue.simps) auto
    next
      case False
      with Cons show ?thesis by (subst (1 2) runQueue.simps) simp
    qed
  qed
qed

lemma runQueue_admits:
  assumes "queue g = q # qs" and "js_lt (Fin (running g) 0) (maxConcurrentFetches g)"
  shows "\<exists>rest. started (runQueue g) = started g @ q # rest \<and>
                active (runQueue g) = active g @ q # rest"
proof -
  let ?g1 = "g\<lparr>queue := qs, running := running g + 1,
                 started := started g @ [q], active := active g @ [q]\<rparr>"
  have "runQueue g = runQueue ?g1"
    using assms by (subst runQueue.simps) simp
  then show ?thesis
    using runQueue_grows [of ?g1] by auto
qed

lemma gate_step_inv: "gate_inv g \<Longrightarrow> gate_inv (gate_step g e)"
proof (cases e)
  case (Submit fn)
  assume "gate_inv g"
  then have "gate_inv (g\<lparr>queue := queue g @ [fn]\<rparr>)" by (auto simp: gate_inv_def)
  then show ?thesis using Submit by (simp add: schedule_def runQueue_inv)
next
  case (Settle item ok)
  assume inv: "gate_inv g"
  show ?thesis
  proof (cases "item \<in> set (active g)")
    case True
    then have "length (remove1 item (active g)) = length (active g) - 1"
      by (simp add: length_remove1)
    moreover from True have "0 < length (active g)" by (cases "active g") auto
    ultimately have "int (length (remove1 item (active g))) = int (length (active g)) - 1"
      by linarith
    moreover have "js_lt (Fin (running g - 1 - 1) 0) (maxConcurrentFetches g)"
      using inv js_lt_down [of "running g - 1 - 1" "running g - 1"] by (auto simp: gate_inv_def)
    ultimately show ?thesis
      using inv Settle True by (simp add: settle_def gate_inv_def)
  next
    case False
    with inv Settle show ?thesis by simp
  qed
next
  case Immediate
  assume inv: "gate_inv g"
  then have "gate_inv (g\<lparr>immediates := immediates g - 1\<rparr>)" by (auto simp: gate_inv_def)
  then show ?thesis using Immediate inv by (simp add: immediate_def runQueue_inv)
qed

lemma gate_step_limit [simp]: "maxConcurrentFetches (gate_step g e) = maxConcurrentFetches g"
  by (cases e) (simp_all add: schedule_def settle_def immediate_def)

lemma gate_step_fifo:
  "started (gate_step g e) @ queue (gate_step g e) =
     started g @ queue g @ submitted [e]"
  by (cases e) (simp_all add: schedule_def settle_def immediate_def runQueue_fifo)

lemma submitted_append: "submitted (evs @ [e]) = submitted evs @ submitted [e]"
  by (induction evs rule: submitted.induct) simp_all

lemma configured_limit_pos: "js_lt (Fin 0 0) (configured_limit setting)"
  by (simp add: configured_limit_def Let_def js_gt_def fin_val_def pow10_def)

lemma gate_run_props:
  "gate_inv (gate_run (gate_init setting) evs) \<and>
   maxConcurrentFetches (gate_run (gate_init setting) evs) = configured_limit setting \<and>
   started (gate_run (gate_init setting) evs) @ queue (gate_run (gate_init setting) evs) =
     submitted evs"
proof (induction evs rule: rev_induct)
  case Nil
  show ?case
    using js_lt_down [OF _ configured_limit_pos, of "- 1" setting]
    by (simp add: gate_run_def gate_init_def gate_inv_def)
next
  case (snoc e evs)
  then show ?case
    by (simp add: gate_run_def gate_step_inv gate_step_fifo submitted_append)
qed

text \<open>
  C5. After any sequence of submissions, completions and scheduled \<^verbatim>\<open>runQueue\<close> calls, with
  \<open>N\<close> the limit that \<^verbatim>\<open>ready\<close> installed: the number of running tasks less one is below \<open>N\<close>,
  so it is at most \<open>N\<close> rounded up, and at most \<open>N\<close> when \<open>N\<close> is a whole number; it is the
  number of tasks in flight; the tasks started so far, followed by the queue, are the
  submitted tasks in the order of submission; and when a task in flight settles, resolved or
  rejected, the counter goes down by one and the \<^verbatim>\<open>runQueue\<close> call it schedules starts the
  head of the queue, if there is one.
\<close>

theorem fetch_gate_bound:
  assumes "g = gate_run (gate_init setting) evs"
  shows "js_lt (Fin (running g - 1) 0) (maxConcurrentFetches g) \<and>
         (\<forall>m e. maxConcurrentFetches g = Fin m e \<longrightarrow> running g \<le> \<lceil>fin_val m e\<rceil>) \<and>
         (\<forall>n. maxConcurrentFetches g = Fin n 0 \<longrightarrow> running g \<le> n) \<and>
         maxConcurrentFetches g = configured_limit setting \<and>
         running g = int (length (active g)) \<and>
         started g @ queue g = submitted evs \<and>
         (\<forall>item ok. item \<in> set (active g) \<longrightarrow>
            running (settle item ok g) = running g - 1 \<and>
            (\<forall>q qs. queue g = q # qs \<longrightarrow>
               (\<exists>rest. started (immediate (settle item ok g)) = started g @ q # rest \<and>
                       active (immediate (settle item ok g)) =
                         remove1 item (active g) @ q # rest)))"
proof -
  have inv: "gate_inv g" and lim: "maxConcurrentFetches g = configured_limit setting"
    and fifo: "started g @ queue g = submitted evs"
    using gate_run_props [of setting evs] assms by simp_all
  from inv have below: "js_lt (Fin (running g - 1) 0) (maxConcurrentFetches g)"
    by (auto simp: gate_inv_def)
  have up: "running g \<le> \<lceil>fin_val m e\<rceil>" if "maxConcurrentFetches g = Fin m e" for m e
    using below that js_lt_ceiling [of "running g" m e] by simp
  have whole: "running g \<le> n" if "maxConcurrentFetches g = Fin n 0" for n
    using below that by (simp add: fin_val_whole)
  have "\<exists>rest. started (immediate (settle item ok g)) = started g @ q # rest \<and>
               active (immediate (settle item ok g)) = remove1 item (active g) @ q # rest"
    if "queue g = q # qs" for item ok q qs
  proof -
    let ?g1 = "(settle item ok g)\<lparr>immediates := immediates (settle item ok g) - 1\<rparr>"
    have "queue ?g1 = q # qs" and "js_lt (Fin (running ?g1) 0) (maxConcurrentFetches ?g1)"
      using that below by (simp_all add: settle_def)
    from runQueue_admits [OF this] show ?thesis
      by (simp add: immediate_def settle_def)
  qed
  then show ?thesis
    using inv below up whole lim fifo by (simp add: gate_inv_def settle_def)
qed

text \<open>
  The limit itself is not a bound when it is not whole: with the setting 2.5 the third task
  finds the counter at 2, below the limit, and is started.
\<close>

theorem fetch_gate_fraction_counterexample:
  "maxConcurrentFetches (gate_run (gate_init (Num (Fin 25 (- 1)))) demo_events) = Fin 25 (- 1) \<and>
   running (gate_run (gate_init (Num (Fin 25 (- 1)))) demo_events) = 3 \<and>
   active (gate_run (gate_init (Num (Fin 25 (- 1)))) demo_events) =
     [''status'', ''values'', ''commands''] \<and>
   js_lt (maxConcurrentFetches (gate_run (gate_init (Num (Fin 25 (- 1)))) demo_events))
     (Fin (running (gate_run (gate_init (Num (Fin 25 (- 1)))) demo_events)) 0)"
proof -
  have lim: "configured_limit (Num (Fin 25 (- 1))) = Fin 25 (- 1)"
    by (simp add: configured_limit_def Let_def js_gt_def fin_val_def pow10_def)
  have "gate_run (gate_init (Num (Fin 25 (- 1)))) demo_events =
          \<lparr>queue = [], running = 3, maxConcurrentFetches = Fin 25 (- 1),
           started = [''status'', ''values'', ''commands''],
           active = [''status'', ''values'', ''commands''],
           settled = [], immediates = 0\<rparr>"
    by (simp add: gate_run_def gate_init_def lim demo_events_def schedule_def runQueue.simps
                  fin_val_def pow10_def)
  then show ?thesis by (simp add: fin_val_def pow10_def)
qed

subsection \<open>Command Batcher\<close>

lemma post_returns_fields:
  "commands (post_returns ps payload outcome b) = [] \<and>
   CommandTimeout (post_returns ps payload outcome b) = CommandTimeout b \<and>
   posted (post_returns ps payload outcome b) = posted b"
  by (simp add: post_returns_def Let_def split: post_outcome.splits)

lemma batch_step_budget:
  "length (posted (batch_step ps b e)) + armed (batch_step ps b e)
     \<le> length (posted b) + armed b + enqueues [e]"
  by (cases e)
     (auto simp: armed_def enqueues_def setIsgCommands_def timer_fires_def Let_def
                 post_returns_fields split: option.splits)

lemma enqueues_append: "enqueues (evs @ [e]) = enqueues evs + enqueues [e]"
  by (simp add: enqueues_def)

lemma batch_run_budget:
  "length (posted (batch_run ps batch_init evs)) + armed (batch_run ps batch_init evs)
     \<le> enqueues evs"
proof (induction evs rule: rev_induct)
  case Nil
  show ?case by (simp add: batch_run_def batch_init_def armed_def enqueues_def)
next
  case (snoc e evs)
  have "batch_run ps batch_init (evs @ [e]) = batch_step ps (batch_run ps batch_init evs) e"
    by (simp add: batch_run_def)
  with snoc batch_step_budget [of ps "batch_run ps batch_init evs" e] show ?case
    by (simp add: enqueues_append)
qed

text \<open>
  C7. Once the POST of a flush has its answer, whatever the answer (status 200, another
  status, a transport failure or an abort), the pending batch is empty, and the flush has
  neither posted again nor armed the timer. Over a whole run there are never more POSTs
  than enqueued commands.
\<close>

theorem flush_clears_commands:
  "commands (post_returns ps payload outcome b) = [] \<and>
   CommandTimeout (post_returns ps payload outcome b) = CommandTimeout b \<and>
   posted (post_returns ps payload outcome b) = posted b \<and>
   length (posted (batch_run ps batch_init evs)) \<le> enqueues evs"
  using post_returns_fields [of ps payload outcome b] batch_run_budget [of ps evs] by simp

subsection \<open>Startup\<close>

text \<open>The two addresses that the error message of \<^verbatim>\<open>main\<close> gives as examples are accepted.\<close>

lemma example_ip: "rx_test ipformat ''192.168.123.123''"
  by code_simp

lemma example_fqdn: "rx_test fqdnformat ''servicewelt.fritz.box''"
  by code_simp



lemma servicewelt_trim: "trim ''servicewelt'' = ''servicewelt''"
  by code_simp



text \<open>
  The branch of \<^verbatim>\<open>main\<close> for a missing address writes the flag itself; the branch for a
  malformed address only logs, and the flag is the one that \<^verbatim>\<open>ready\<close> wrote before \<^verbatim>\<open>main\<close>.
\<close>

lemma unset_address_reported:
  "address_unset cfg \<Longrightarrow> last (main cfg pr) = SetConnection False"
  by (auto simp: main_def not_set_def address_unset_def split: option.splits)

lemma malformed_address_not_reported:
  "\<not> address_unset cfg \<Longrightarrow> address_malformed cfg \<Longrightarrow>
     SetConnection False \<notin> set (main cfg pr)"
  by (auto simp: main_def address_unset_def address_malformed_def split: option.splits)

lemma ready_resets_flag: "hd (ready cfg pr) = SetConnection False"
  by (simp add: ready_def)


subsection \<open>The example, evaluated\<close>

lemma demo_id: "id_of demo_env demo_cmd = ''Einstellungen.HEIZEN.val5''"
  by code_simp

lemma demo_tag: "valTag demo_cmd \<noteq> None"
  by (simp add: demo_cmd_def)

lemma demo_stored: "objects demo_world (id_of demo_env demo_cmd) = Some demo_object"
  by (simp add: demo_id demo_world_def)

lemma demo_no_min: "\<not> hasOwnProperty (desiredCommon demo_env demo_cmd) ''min''"
  by (simp add: hasOwnProperty_def desired_min demo_cmd_def spec_bound_empty)

lemma demo_no_states: "\<not> hasOwnProperty (desiredCommon demo_env demo_cmd) ''states''"
  by (simp add: hasOwnProperty_def desired_states_falsy demo_cmd_def)


lemma demo_valNN: "is_valNN ''Einstellungen.HEIZEN.val5''"
  by code_simp

lemma demo_not_valNN: "\<not> is_valNN ''Einstellungen.HEIZEN.RAUMTEMPERATUR''"
  by code_simp



text \<open>C3 on the example, with bounds 0 and 50: 60 and -5 are written as 0, 21.5 as it is.\<close>

theorem safeSetState_clamp_witness:
  "is_valNN ''Einstellungen.HEIZEN.val5'' \<and>
   states (safeSetState ''Einstellungen.HEIZEN.val5'' (Num (Fin 60 0)) True None demo_world)
     ''Einstellungen.HEIZEN.val5'' = Some (Num (Fin 0 0), True, None) \<and>
   states (safeSetState ''Einstellungen.HEIZEN.val5'' (Num (Fin (- 5) 0)) True None demo_world)
     ''Einstellungen.HEIZEN.val5'' = Some (Num (Fin 0 0), True, None) \<and>
   states (safeSetState ''Einstellungen.HEIZEN.val5'' (Num (Fin 215 (- 1))) True None demo_world)
     ''Einstellungen.HEIZEN.val5'' = Some (Num (Fin 215 (- 1)), True, None)"
proof -
  let ?i = "''Einstellungen.HEIZEN.val5''"
  have h2: "read_error demo_world ?i = None" by (simp add: demo_world_def)
  have h3: "objects demo_world ?i = Some demo_object" by (simp add: demo_world_def)
  have h4: "common demo_object = Some demo_common" by (simp add: demo_object_def)
  have h5: "map_of demo_common ''min'' = Some (Num (Fin 0 0))" by (simp add: demo_common_def)
  have h6: "map_of demo_common ''max'' = Some (Num (Fin 50 0))" by (simp add: demo_common_def)
  have c1: "js_gt (Fin 60 0) (Fin 50 0)" "\<not> js_lt (Fin 60 0) (Fin 0 0)"
    by (simp_all add: js_gt_def fin_val_def pow10_def)
  have c2: "js_lt (Fin (- 5) 0) (Fin 0 0)"
    by (simp add: fin_val_def pow10_def)
  have c3: "\<not> js_lt (Fin 215 (- 1)) (Fin 0 0)" "\<not> js_gt (Fin 215 (- 1)) (Fin 50 0)"
    by (simp_all add: js_gt_def fin_val_def pow10_def)
  note th = safeSetState_clamp [OF demo_valNN h2 h3 h4 h5 h6, where ack = True and expire = None]
  from th [of "Fin 60 0"] th [of "Fin (- 5) 0"] th [of "Fin 215 (- 1)"] c1 c2 c3 demo_valNN
  show ?thesis by simp
qed

text \<open>
  C3 as the spec states it, for every bounded write: the entity under the id
  \<^verbatim>\<open>Einstellungen.HEIZEN.RAUMTEMPERATUR\<close> declares the bounds 0 and 50, the value 60 is above
  the upper bound, and it is written as 60, not as the lower bound.
\<close>

theorem clamp_every_write_counterexample:
  "objects demo_world ''Einstellungen.HEIZEN.RAUMTEMPERATUR'' = Some demo_object \<and>
   common demo_object = Some demo_common \<and>
   map_of demo_common ''min'' = Some (Num (Fin 0 0)) \<and>
   map_of demo_common ''max'' = Some (Num (Fin 50 0)) \<and>
   js_gt (Fin 60 0) (Fin 50 0) \<and>
   states (safeSetState ''Einstellungen.HEIZEN.RAUMTEMPERATUR'' (Num (Fin 60 0)) True None
             demo_world) ''Einstellungen.HEIZEN.RAUMTEMPERATUR'' =
     Some (Num (Fin 60 0), True, None) \<and>
   Num (Fin 60 0) \<noteq> Num (Fin 0 0)"
  by (simp add: safeSetState_def demo_not_valNN setState_def demo_world_def demo_object_def
                demo_common_def js_gt_def fin_val_def pow10_def)

text \<open>
  C4. Reconciling the example command twice. The entity is stored with \<^verbatim>\<open>min = 0\<close> and the
  command has no lower bound: the first reconciliation patches with a common that leaves the
  key out, the store keeps the key, and the second reconciliation, with the same derived
  data, finds the same difference and calls \<^verbatim>\<open>extendObject\<close> again.
\<close>

theorem reconcile_twice_patches_twice:
  "\<exists>nc nc' v v'.
     calls (createISGCommands demo_env demo_cmd (createISGCommands demo_env demo_cmd demo_world)) =
       [GetObject ''Einstellungen.HEIZEN.val5'',
        ExtendObject ''Einstellungen.HEIZEN.val5'' nc,
        GetObject ''Einstellungen.HEIZEN.val5'',
        SetState ''Einstellungen.HEIZEN.val5'' v True None,
        GetObject ''Einstellungen.HEIZEN.val5'',
        ExtendObject ''Einstellungen.HEIZEN.val5'' nc',
        GetObject ''Einstellungen.HEIZEN.val5'',
        SetState ''Einstellungen.HEIZEN.val5'' v' True None] \<and>
     \<not> hasOwnProperty nc ''min'' \<and> \<not> hasOwnProperty nc' ''min''"
proof -
  let ?i = "''Einstellungen.HEIZEN.val5''"
  let ?d = "desiredCommon demo_env demo_cmd"
  have h2: "read_error demo_world (id_of demo_env demo_cmd) = None"
    by (simp add: demo_world_def)
  have h4: "common demo_object = Some demo_common" by (simp add: demo_object_def)
  have h5: "''min'' = ''min'' \<or> ''min'' = ''max''" by simp
  have h6: "map_of demo_common ''min'' = Some (Num (Fin 0 0))" by (simp add: demo_common_def)
  have h7: "js_String (Num (Fin 0 0)) \<noteq> ''undefined''" by (simp add: num_str_not_undefined)
  from stale_needs_update [OF h5 h6 h7 demo_no_min]
  have need: "needUpdate demo_env demo_common (newCommon demo_common ?d)"
    and gone: "\<not> hasOwnProperty (newCommon demo_common ?d) ''min''" by simp_all
  have ex: "existing_of demo_object = demo_common"
    by (simp add: existing_of_def demo_object_def)
  from create_calls [OF demo_tag h2 demo_stored] need ex demo_valNN
  obtain v where first: "calls (createISGCommands demo_env demo_cmd demo_world) =
      [GetObject ?i, ExtendObject ?i (newCommon demo_common ?d), GetObject ?i,
       SetState ?i v True None]"
    by (auto simp: demo_id demo_world_def)
  from stale_bound_patched_again [OF demo_tag h2 demo_stored h4 h5 h6 h7 demo_no_min] demo_valNN
  obtain c' v' where
    "calls (createISGCommands demo_env demo_cmd (createISGCommands demo_env demo_cmd demo_world)) =
       calls (createISGCommands demo_env demo_cmd demo_world) @
       [GetObject ?i, ExtendObject ?i (newCommon c' ?d), GetObject ?i, SetState ?i v' True None]"
    and "\<not> hasOwnProperty (newCommon c' ?d) ''min''"
    by (auto simp: demo_id)
  with first gone show ?thesis
    by (intro exI [of _ "newCommon demo_common ?d"] exI [of _ "newCommon c' ?d"]
              exI [of _ v] exI [of _ v']) simp
qed

text \<open>C9 on the example.\<close>

theorem states_kept_witness:
  "map_of demo_common ''states'' = Some (Obj [(''0'', Str ''Off''), (''1'', Str ''On'')]) \<and>
   \<not> hasOwnProperty (desiredCommon demo_env demo_cmd) ''states'' \<and>
   map_of (newCommon demo_common (desiredCommon demo_env demo_cmd)) ''states'' =
     Some (Obj [(''0'', Str ''Off''), (''1'', Str ''On'')]) \<and>
   (\<exists>ob' c'. objects (createISGCommands demo_env demo_cmd demo_world)
                (id_of demo_env demo_cmd) = Some ob' \<and>
              common ob' = Some c' \<and>
              map_of c' ''states'' = Some (Obj [(''0'', Str ''Off''), (''1'', Str ''On'')]))"
proof -
  have h3: "common demo_object = Some demo_common" by (simp add: demo_object_def)
  have h4: "map_of demo_common ''states'' = Some (Obj [(''0'', Str ''Off''), (''1'', Str ''On'')])"
    by (simp add: demo_common_def)
  from states_kept [OF demo_tag demo_stored h3 h4 demo_no_states] h4 demo_no_states
  show ?thesis by blast
qed

text \<open>C10 on the example: a write with an expiry under an id that is not a \<^verbatim>\<open>val\<close> id.\<close>

theorem safeSetState_direct_witness:
  "safeSetState ''Einstellungen.HEIZEN.RAUMTEMPERATUR'' (Num (Fin 60 0)) True (Some (Num (Fin 120 0)))
     demo_world =
   demo_world\<lparr>states := (states demo_world)(''Einstellungen.HEIZEN.RAUMTEMPERATUR'' \<mapsto>
                  (Num (Fin 60 0), True, Some (Num (Fin 120 0)))),
              calls := calls demo_world @
                [SetState ''Einstellungen.HEIZEN.RAUMTEMPERATUR'' (Num (Fin 60 0)) True
                   (Some (Num (Fin 120 0)))]\<rparr>"
  using safeSetState_direct [OF demo_not_valNN [unfolded is_valNN_iff]] by simp

text \<open>C1 on the example: an empty \<^verbatim>\<open>min\<close> and the number 50 as \<^verbatim>\<open>max\<close>.\<close>

theorem desiredCommon_bounds_witness:
  "map_of (desiredCommon demo_env demo_cmd) ''min'' = None \<and>
   map_of (desiredCommon demo_env demo_cmd) ''max'' = Some (Num (Fin 50 0))"
proof -
  have "spec_bound (valMin demo_cmd) = None" by (simp add: demo_cmd_def spec_bound_empty)
  moreover have "nat_digits 50 = ''50''" by code_simp
  then have "spec_bound (valMax demo_cmd) = Some (Fin 50 0)"
    by (simp add: demo_cmd_def spec_bound_def pos_str_def strip_zeros_def trim_def is_ws_def
          code_def str_to_num_def non_decimal_def unsigned_decimal_def is_digit_def
          exponent_part_def digits_val_def digit_val_def in_range_def fin_val_def pow10_def
          Let_def)
  ultimately show ?thesis using desiredCommon_bounds [of demo_env demo_cmd] by simp
qed

text \<open>C5 on the example: three tasks at a gate with two slots.\<close>

theorem fetch_gate_bound_witness:
  "running (gate_run (gate_init (Num (Fin 2 0))) demo_events) = 2 \<and>
   maxConcurrentFetches (gate_run (gate_init (Num (Fin 2 0))) demo_events) = Fin 2 0 \<and>
   running (gate_run (gate_init (Num (Fin 2 0))) demo_events) \<le> 2 \<and>
   started (gate_run (gate_init (Num (Fin 2 0))) demo_events) = [''status'', ''values''] \<and>
   queue (gate_run (gate_init (Num (Fin 2 0))) demo_events) = [''commands''] \<and>
   running (settle ''status'' False (gate_run (gate_init (Num (Fin 2 0))) demo_events)) = 1 \<and>
   (\<exists>rest. started (immediate (settle ''status'' False
              (gate_run (gate_init (Num (Fin 2 0))) demo_events))) =
            [''status'', ''values''] @ ''commands'' # rest)"
proof -
  let ?g = "gate_run (gate_init (Num (Fin 2 0))) demo_events"
  have lim: "configured_limit (Num (Fin 2 0)) = Fin 2 0"
    by (simp add: configured_limit_def Let_def js_gt_def fin_val_def pow10_def)
  have g: "?g = \<lparr>queue = [''commands''], running = 2, maxConcurrentFetches = Fin 2 0,
                 started = [''status'', ''values''], active = [''status'', ''values''],
                 settled = [], immediates = 0\<rparr>"
    by (simp add: gate_run_def gate_init_def lim demo_events_def schedule_def runQueue.simps
                  fin_val_whole)
  have a: "''status'' \<in> set (active ?g)" and q: "queue ?g = ''commands'' # []"
    and s: "started ?g = [''status'', ''values'']"
    and r: "running ?g = 2" and m: "maxConcurrentFetches ?g = Fin 2 0"
    by (simp_all add: g)
  from fetch_gate_bound [OF refl, of "Num (Fin 2 0)" demo_events] a q m
  have "running (settle ''status'' False ?g) = running ?g - 1"
    and "\<exists>rest. started (immediate (settle ''status'' False ?g)) = started ?g @ ''commands'' # rest"
    and "running ?g \<le> 2"
    by blast+
  with r m s q show ?thesis by simp
qed


end
